theory Spec2Isabelle
  imports Complex_Main "HOL-Library.Word"
begin

section \<open>Strings and bytes of the platform\<close>

text \<open>
  A JavaScript string is a sequence of UTF-16 code units, a chunk read from the response
  body is a \<open>Uint8Array\<close>. String literals of the source are written as HOL strings and
  turned into code units by \<open>str\<close>.
\<close>

type_synonym jsstring = "nat list"

type_synonym byte = "8 word"

definition str :: "string \<Rightarrow> jsstring" where
  "str s = map of_char s"

text \<open>\<open>String.prototype.split('\n')\<close>: never empty, the pieces between the line feeds.\<close>

fun split_nl :: "jsstring \<Rightarrow> jsstring list" where
  "split_nl [] = [[]]"
| "split_nl (c # cs) =
     (if c = 10 then [] # split_nl cs
      else (case split_nl cs of [] \<Rightarrow> [[c]] | l # ls \<Rightarrow> (c # l) # ls))"

definition startsWith :: "jsstring \<Rightarrow> jsstring \<Rightarrow> bool" where
  "startsWith s p = (take (length p) s = p)"

definition slice_from :: "nat \<Rightarrow> jsstring \<Rightarrow> jsstring" where
  "slice_from n s = drop n s"

text \<open>\<open>String.prototype.trim\<close>: white space and line terminators of ECMAScript.\<close>

definition is_js_space :: "nat \<Rightarrow> bool" where
  "is_js_space c = (c \<in> {9, 10, 11, 12, 13, 32, 160, 0x1680, 0x2028, 0x2029, 0x202F,
                          0x205F, 0x3000, 0xFEFF} \<or> (0x2000 \<le> c \<and> c \<le> 0x200A))"

definition trim :: "jsstring \<Rightarrow> jsstring" where
  "trim s = rev (dropWhile is_js_space (rev (dropWhile is_js_space s)))"

text \<open>Decimal rendering of a non-negative integer, as in a template literal.\<close>

function decimal :: "nat \<Rightarrow> jsstring" where
  "decimal n = (if n < 10 then [48 + n] else decimal (n div 10) @ [48 + n mod 10])"
  by pat_completeness auto
termination
  by (relation "measure id") auto

declare decimal.simps [simp del]

subsection \<open>TextDecoder\<close>

text \<open>
  \<open>new TextDecoder()\<close> is the UTF-8 decoder of the Encoding standard. Its state is the
  code point under construction, the bytes seen and needed, and the bounds of the next
  continuation byte.
\<close>

record utf8_decoder =
  code_point :: nat
  bytes_seen :: nat
  bytes_needed :: nat
  lower_boundary :: nat
  upper_boundary :: nat

definition utf8_init :: utf8_decoder where
  "utf8_init = \<lparr>code_point = 0, bytes_seen = 0, bytes_needed = 0,
                 lower_boundary = 0x80, upper_boundary = 0xBF\<rparr>"

text \<open>The handler when no byte is pending: \<open>b mod 32\<close> is \<open>byte & 0x1F\<close>, and so on.\<close>

definition utf8_lead :: "utf8_decoder \<Rightarrow> nat \<Rightarrow> utf8_decoder \<times> nat list" where
  "utf8_lead d b =
     (if b \<le> 0x7F then (d, [b])
      else if 0xC2 \<le> b \<and> b \<le> 0xDF then
        (d\<lparr>bytes_needed := 1, code_point := b mod 32\<rparr>, [])
      else if 0xE0 \<le> b \<and> b \<le> 0xEF then
        (d\<lparr>lower_boundary := (if b = 0xE0 then 0xA0 else lower_boundary d),
           upper_boundary := (if b = 0xED then 0x9F else upper_boundary d),
           bytes_needed := 2, code_point := b mod 16\<rparr>, [])
      else if 0xF0 \<le> b \<and> b \<le> 0xF4 then
        (d\<lparr>lower_boundary := (if b = 0xF0 then 0x90 else lower_boundary d),
           upper_boundary := (if b = 0xF4 then 0x8F else upper_boundary d),
           bytes_needed := 3, code_point := b mod 8\<rparr>, [])
      else (d, [0xFFFD]))"

text \<open>
  One byte. A byte outside the bounds resets the decoder, yields U+FFFD and is read
  again as a first byte; \<open>cp * 64 + b mod 64\<close> is \<open>(cp << 6) | (byte & 0x3F)\<close>.
\<close>

definition utf8_handler :: "utf8_decoder \<Rightarrow> byte \<Rightarrow> utf8_decoder \<times> nat list" where
  "utf8_handler d byte =
     (let b = unat byte in
      if bytes_needed d = 0 then utf8_lead d b
      else if b < lower_boundary d \<or> upper_boundary d < b then
        (case utf8_lead utf8_init b of (d', out) \<Rightarrow> (d', 0xFFFD # out))
      else
        (let cp = code_point d * 64 + b mod 64 in
         if bytes_seen d + 1 \<noteq> bytes_needed d then
           (d\<lparr>lower_boundary := 0x80, upper_boundary := 0xBF, code_point := cp,
              bytes_seen := bytes_seen d + 1\<rparr>, [])
         else (utf8_init, [cp])))"

text \<open>All bytes of one call, then end of queue: pending bytes yield one U+FFFD.\<close>

fun utf8_run :: "utf8_decoder \<Rightarrow> byte list \<Rightarrow> nat list" where
  "utf8_run d [] = (if bytes_needed d \<noteq> 0 then [0xFFFD] else [])"
| "utf8_run d (b # bs) = (case utf8_handler d b of (d', out) \<Rightarrow> out @ utf8_run d' bs)"

text \<open>The decoder state after the bytes, before end of queue.\<close>

fun utf8_state :: "utf8_decoder \<Rightarrow> byte list \<Rightarrow> utf8_decoder" where
  "utf8_state d [] = d"
| "utf8_state d (b # bs) = utf8_state (fst (utf8_handler d b)) bs"

fun strip_bom :: "nat list \<Rightarrow> nat list" where
  "strip_bom [] = []"
| "strip_bom (c # cs) = (if c = 0xFEFF then cs else c # cs)"

definition utf16 :: "nat \<Rightarrow> jsstring" where
  "utf16 cp = (if cp < 0x10000 then [cp]
               else [0xD800 + (cp - 0x10000) div 0x400, 0xDC00 + (cp - 0x10000) mod 0x400])"

text \<open>
  \<open>decoder.decode(value)\<close> without \<open>{stream: true}\<close>: every call starts a new decoder,
  flushes it at the end of the chunk and drops one leading byte-order mark.
\<close>

definition decode :: "byte list \<Rightarrow> jsstring" where
  "decode value = concat (map utf16 (strip_bom (utf8_run utf8_init value)))"

text \<open>
  What \<open>decode(value, {stream: true})\<close> would give over the chunks of one response: one
  decoder for all of them. The source never calls it; it is the reference of the
  comparison with a stateful decoder.
\<close>

definition decode_stream :: "byte list list \<Rightarrow> jsstring" where
  "decode_stream chunks = decode (concat chunks)"

section \<open>JSON.parse and the conversions of ECMAScript\<close>

text \<open>
  The values \<open>JSON.parse\<close> can return. A Number is kept as the exact value of its
  literal; an object is the list of its members in source order.
\<close>

datatype jsval =
    JNull
  | JBool bool
  | JNum rat
  | JStr jsstring
  | JArr "jsval list"
  | JObj "(jsstring \<times> jsval) list"

datatype token =
    LBrace | RBrace | LBracket | RBracket | Colon | Comma
  | TStr jsstring | TNum rat | TTrue | TFalse | TNull

definition is_digit :: "nat \<Rightarrow> bool" where
  "is_digit c = (48 \<le> c \<and> c \<le> 57)"

definition is_json_space :: "nat \<Rightarrow> bool" where
  "is_json_space c = (c = 32 \<or> c = 9 \<or> c = 10 \<or> c = 13)"

definition hex_digit :: "nat \<Rightarrow> nat option" where
  "hex_digit c =
     (if 48 \<le> c \<and> c \<le> 57 then Some (c - 48)
      else if 65 \<le> c \<and> c \<le> 70 then Some (c - 55)
      else if 97 \<le> c \<and> c \<le> 102 then Some (c - 87)
      else None)"

fun hex4 :: "jsstring \<Rightarrow> nat option" where
  "hex4 [a, b, c, d] =
     (case (hex_digit a, hex_digit b, hex_digit c, hex_digit d) of
        (Some h3, Some h2, Some h1, Some h0) \<Rightarrow> Some (h3 * 4096 + h2 * 256 + h1 * 16 + h0)
      | _ \<Rightarrow> None)"
| "hex4 _ = None"

definition escape :: "nat \<Rightarrow> nat option" where
  "escape e =
     (if e = 34 then Some 34 else if e = 92 then Some 92 else if e = 47 then Some 47
      else if e = 98 then Some 8 else if e = 102 then Some 12 else if e = 110 then Some 10
      else if e = 114 then Some 13 else if e = 116 then Some 9 else None)"

definition cons_char :: "nat \<Rightarrow> (jsstring \<times> jsstring) option \<Rightarrow> (jsstring \<times> jsstring) option" where
  "cons_char c r = (case r of None \<Rightarrow> None | Some (s, rest) \<Rightarrow> Some (c # s, rest))"

text \<open>
  The characters of a string literal after its opening quote: the string and the rest
  of the input after the closing quote.
\<close>

fun lex_string :: "jsstring \<Rightarrow> (jsstring \<times> jsstring) option" where
  "lex_string [] = None"
| "lex_string (c # cs) =
     (if c = 34 then Some ([], cs)
      else if c = 92 then
        (case cs of
           [] \<Rightarrow> None
         | e # cs' \<Rightarrow>
             if e = 117 then
               (case hex4 (take 4 cs') of
                  None \<Rightarrow> None
                | Some u \<Rightarrow> cons_char u (lex_string (drop 4 cs')))
             else
               (case escape e of
                  None \<Rightarrow> None
                | Some x \<Rightarrow> cons_char x (lex_string cs')))
      else if c < 32 then None
      else cons_char c (lex_string cs))"

definition digits_value :: "jsstring \<Rightarrow> nat" where
  "digits_value ds = foldl (\<lambda>n c. 10 * n + (c - 48)) 0 ds"

text \<open>
  A number literal \<open>-? int frac? exp?\<close> at the head of the input: its value and the rest.
  The fraction and the exponent are optional; once begun they need a digit.
\<close>

definition lex_frac :: "jsstring \<Rightarrow> (jsstring \<times> jsstring) option" where
  "lex_frac s =
     (case s of
        [] \<Rightarrow> Some ([], s)
      | c # cs \<Rightarrow>
          if c = 46 then
            (if takeWhile is_digit cs = [] then None
             else Some (takeWhile is_digit cs, dropWhile is_digit cs))
          else Some ([], s))"

definition lex_exp :: "jsstring \<Rightarrow> (int \<times> jsstring) option" where
  "lex_exp s =
     (case s of
        [] \<Rightarrow> Some (0, s)
      | c # cs \<Rightarrow>
          if c = 101 \<or> c = 69 then
            (let neg = (cs \<noteq> [] \<and> hd cs = 45);
                 ds = (if cs \<noteq> [] \<and> (hd cs = 45 \<or> hd cs = 43) then tl cs else cs);
                 n = int (digits_value (takeWhile is_digit ds))
             in if takeWhile is_digit ds = [] then None
                else Some (if neg then - n else n, dropWhile is_digit ds))
          else Some (0, s))"

definition scale10 :: "rat \<Rightarrow> int \<Rightarrow> rat" where
  "scale10 m e = (if e < 0 then m / 10 ^ nat (- e) else m * 10 ^ nat e)"

definition lex_number :: "jsstring \<Rightarrow> (rat \<times> jsstring) option" where
  "lex_number s =
     (let neg = (s \<noteq> [] \<and> hd s = 45);
          s1 = (if neg then tl s else s);
          ds = takeWhile is_digit s1
      in if ds = [] \<or> (hd ds = 48 \<and> length ds > 1) then None
         else
           (case lex_frac (dropWhile is_digit s1) of
              None \<Rightarrow> None
            | Some (fs, s2) \<Rightarrow>
                (case lex_exp s2 of
                   None \<Rightarrow> None
                 | Some (e, s3) \<Rightarrow>
                     (let mant = of_nat (digits_value ds)
                                 + of_nat (digits_value fs) / 10 ^ length fs;
                          v = scale10 mant e
                      in Some (if neg then - v else v, s3)))))"

text \<open>The tokens of a JSON text; \<open>None\<close> where no token starts.\<close>

definition cons_token :: "token \<Rightarrow> token list option \<Rightarrow> token list option" where
  "cons_token t r = map_option ((#) t) r"

function lex :: "jsstring \<Rightarrow> token list option" where
  "lex [] = Some []"
| "lex (c # cs) =
     (if is_json_space c then lex cs
      else if c = 123 then cons_token LBrace (lex cs)
      else if c = 125 then cons_token RBrace (lex cs)
      else if c = 91 then cons_token LBracket (lex cs)
      else if c = 93 then cons_token RBracket (lex cs)
      else if c = 58 then cons_token Colon (lex cs)
      else if c = 44 then cons_token Comma (lex cs)
      else if c = 34 then
        (case lex_string cs of
           None \<Rightarrow> None
         | Some (s, rest) \<Rightarrow> cons_token (TStr s) (lex rest))
      else if c = 45 \<or> is_digit c then
        (case lex_number (c # cs) of
           None \<Rightarrow> None
         | Some (r, rest) \<Rightarrow> cons_token (TNum r) (lex rest))
      else if take 4 (c # cs) = str ''true'' then cons_token TTrue (lex (drop 3 cs))
      else if take 5 (c # cs) = str ''false'' then cons_token TFalse (lex (drop 4 cs))
      else if take 4 (c # cs) = str ''null'' then cons_token TNull (lex (drop 3 cs))
      else None)"
  by pat_completeness auto
termination
proof -
  have string_shorter: "length rest < length s" if "lex_string s = Some (t, rest)" for s t rest
    using that
  proof (induction s arbitrary: t rest rule: lex_string.induct)
    case 1
    then show ?case by simp
  next
    case (2 c cs)
    show ?case
    proof (cases "c = 34")
      case True
      with "2.prems" show ?thesis by simp
    next
      case c34: False
      show ?thesis
      proof (cases "c = 92")
        case False
        with c34 "2.prems" obtain t' where "lex_string cs = Some (t', rest)"
          by (auto simp: cons_char_def split: if_splits option.splits)
        with "2.IH"(3) [OF c34 False] "2.prems" c34 False show ?thesis
          by (fastforce split: if_splits)
      next
        case True
        with "2.prems" obtain e cs' where cs: "cs = e # cs'"
          by (cases cs) auto
        show ?thesis
        proof (cases "e = 117")
          case eu: True
          with "2.prems" c34 True cs obtain u t' where
            u: "hex4 (take 4 cs') = Some u" and r: "lex_string (drop 4 cs') = Some (t', rest)"
            by (auto simp: cons_char_def split: option.splits)
          from "2.IH"(1) [OF c34 True cs eu u r] cs show ?thesis by simp
        next
          case eu: False
          with "2.prems" c34 True cs obtain x t' where
            x: "escape e = Some x" and r: "lex_string cs' = Some (t', rest)"
            by (auto simp: cons_char_def split: option.splits)
          from "2.IH"(2) [OF c34 True cs eu x r] cs show ?thesis by simp
        qed
      qed
    qed
  qed
  have frac_shorter: "length rest \<le> length s" if "lex_frac s = Some (fs, rest)" for s fs rest
    using that unfolding lex_frac_def
    by (auto split: list.splits if_splits intro: le_SucI length_dropWhile_le)
  have exp_shorter: "length rest \<le> length s" if a: "lex_exp s = Some (e, rest)" for s e rest
  proof (cases s)
    case Nil
    with a show ?thesis by (simp add: lex_exp_def)
  next
    case (Cons c cs)
    show ?thesis
    proof (cases "c = 101 \<or> c = 69")
      case False
      with a Cons show ?thesis by (auto simp: lex_exp_def)
    next
      case True
      define ds where "ds = (if cs \<noteq> [] \<and> (hd cs = 45 \<or> hd cs = 43) then tl cs else cs)"
      from a Cons True have "rest = dropWhile is_digit ds"
        by (auto simp: lex_exp_def Let_def ds_def split: if_splits)
      then have "length rest \<le> length ds"
        by (simp add: length_dropWhile_le)
      moreover have "length ds \<le> length cs"
        by (simp add: ds_def)
      ultimately show ?thesis using Cons by simp
    qed
  qed
  have number_shorter: "length rest < length s" if a: "lex_number s = Some (r, rest)" for s r rest
  proof -
    define s1 where "s1 = (if s \<noteq> [] \<and> hd s = 45 then tl s else s)"
    from a have d: "takeWhile is_digit s1 \<noteq> []"
      by (auto simp: lex_number_def Let_def s1_def split: if_splits)
    from a d obtain fs s2 e where
      f: "lex_frac (dropWhile is_digit s1) = Some (fs, s2)" and x: "lex_exp s2 = Some (e, rest)"
      by (auto simp: lex_number_def Let_def s1_def split: if_splits option.splits)
    have "length (takeWhile is_digit s1) + length (dropWhile is_digit s1) = length s1"
      by (metis length_append takeWhile_dropWhile_id)
    with d have "length (dropWhile is_digit s1) < length s1"
      by (cases "takeWhile is_digit s1") auto
    moreover have "length s1 \<le> length s"
      by (simp add: s1_def)
    ultimately show ?thesis
      using frac_shorter [OF f] exp_shorter [OF x] by linarith
  qed
  show ?thesis
  proof (relation "measure length")
    fix c cs x2 x y
    assume "lex_string cs = Some x2" "(x, y) = x2"
    then show "(y, c # cs) \<in> measure length"
      using string_shorter [of cs x y] by simp
  next
    fix c cs x2 x y
    assume "lex_number (c # cs) = Some x2" "(x, y) = x2"
    then show "(y, c # cs) \<in> measure length"
      using number_shorter [of "c # cs" x y] by simp
  qed auto
qed

text \<open>
  The grammar of JSON over the tokens, as a pushdown automaton: the stack holds the
  arrays and objects that are open, each with what it has collected.
\<close>

datatype frame = InArray "jsval list" | InObject "(jsstring \<times> jsval) list" jsstring

datatype mode =
    ExpectValue
  | ExpectValueOrClose
  | ExpectKeyOrClose
  | ExpectKey
  | ExpectColon
  | AfterElement
  | AfterMember
  | Finished jsval

fun complete :: "jsval \<Rightarrow> frame list \<Rightarrow> mode \<times> frame list" where
  "complete v [] = (Finished v, [])"
| "complete v (InArray vs # st) = (AfterElement, InArray (vs @ [v]) # st)"
| "complete v (InObject kvs k # st) = (AfterMember, InObject (kvs @ [(k, v)]) k # st)"

fun begin_value :: "token \<Rightarrow> frame list \<Rightarrow> (mode \<times> frame list) option" where
  "begin_value LBrace st = Some (ExpectKeyOrClose, InObject [] [] # st)"
| "begin_value LBracket st = Some (ExpectValueOrClose, InArray [] # st)"
| "begin_value (TStr s) st = Some (complete (JStr s) st)"
| "begin_value (TNum r) st = Some (complete (JNum r) st)"
| "begin_value TTrue st = Some (complete (JBool True) st)"
| "begin_value TFalse st = Some (complete (JBool False) st)"
| "begin_value TNull st = Some (complete JNull st)"
| "begin_value _ st = None"

fun parse_step :: "mode \<Rightarrow> frame list \<Rightarrow> token \<Rightarrow> (mode \<times> frame list) option" where
  "parse_step ExpectValue st t = begin_value t st"
| "parse_step ExpectValueOrClose (InArray vs # st) RBracket = Some (complete (JArr vs) st)"
| "parse_step ExpectValueOrClose st t = begin_value t st"
| "parse_step ExpectKeyOrClose (InObject kvs k # st) RBrace = Some (complete (JObj kvs) st)"
| "parse_step ExpectKeyOrClose (InObject kvs k # st) (TStr s) =
     Some (ExpectColon, InObject kvs s # st)"
| "parse_step ExpectKey (InObject kvs k # st) (TStr s) = Some (ExpectColon, InObject kvs s # st)"
| "parse_step ExpectColon st Colon = Some (ExpectValue, st)"
| "parse_step AfterElement st Comma = Some (ExpectValue, st)"
| "parse_step AfterElement (InArray vs # st) RBracket = Some (complete (JArr vs) st)"
| "parse_step AfterMember st Comma = Some (ExpectKey, st)"
| "parse_step AfterMember (InObject kvs k # st) RBrace = Some (complete (JObj kvs) st)"
| "parse_step _ _ _ = None"

fun parse_tokens :: "mode \<Rightarrow> frame list \<Rightarrow> token list \<Rightarrow> jsval option" where
  "parse_tokens m st [] = (case (m, st) of (Finished v, []) \<Rightarrow> Some v | _ \<Rightarrow> None)"
| "parse_tokens m st (t # ts) =
     (case parse_step m st t of
        None \<Rightarrow> None
      | Some (m', st') \<Rightarrow> parse_tokens m' st' ts)"

text \<open>\<open>JSON.parse(text)\<close>; \<open>None\<close> is the SyntaxError it throws.\<close>

definition JSON_parse :: "jsstring \<Rightarrow> jsval option" where
  "JSON_parse text = (case lex text of None \<Rightarrow> None | Some ts \<Rightarrow> parse_tokens ExpectValue [] ts)"

text \<open>
  \<open>ToBoolean\<close>. A number literal is falsy when it rounds to \<open>0\<close> as an IEEE double
  (round to nearest, ties to even): when its magnitude is at most \<open>2^-1075\<close>.
\<close>

fun ToBoolean :: "jsval \<Rightarrow> bool" where
  "ToBoolean JNull = False"
| "ToBoolean (JBool b) = b"
| "ToBoolean (JNum r) = (1 < \<bar>r\<bar> * 2 ^ 1075)"
| "ToBoolean (JStr s) = (s \<noteq> [])"
| "ToBoolean (JArr vs) = True"
| "ToBoolean (JObj kvs) = True"

text \<open>
  \<open>parsed.done\<close> and \<open>parsed.content\<close>: reading a property of \<open>null\<close> throws a TypeError;
  an object gives its own member (the last one of that name), and for these two names,
  which no prototype defines, every other value gives \<open>undefined\<close>.
\<close>

datatype property = TypeError | Undefined | Value jsval

fun member :: "jsval \<Rightarrow> jsstring \<Rightarrow> property" where
  "member JNull k = TypeError"
| "member (JObj kvs) k = (case map_of (rev kvs) k of None \<Rightarrow> Undefined | Some v \<Rightarrow> Value v)"
| "member v k = Undefined"

fun truthy :: "property \<Rightarrow> bool" where
  "truthy (Value v) = ToBoolean v"
| "truthy p = False"

fun join_with :: "jsstring \<Rightarrow> jsstring list \<Rightarrow> jsstring" where
  "join_with sep [] = []"
| "join_with sep [x] = x"
| "join_with sep (x # y # ys) = x @ sep @ join_with sep (y # ys)"

fun sequence :: "'a option list \<Rightarrow> 'a list option" where
  "sequence [] = Some []"
| "sequence (None # xs) = None"
| "sequence (Some x # xs) = map_option ((#) x) (sequence xs)"

text \<open>
  The string a value contributes to \<open>string + value\<close>. \<open>nts\<close> is \<open>Number::toString\<close>,
  the float formatting of the platform, on the value of the literal. An array is
  joined with commas, \<open>null\<close> elements as empty strings. An object has no callable
  \<open>toString\<close> of its own: with a member of that name the conversion throws a TypeError
  (\<open>None\<close>), without one it is \<open>[object Object]\<close>.
\<close>

fun ToString :: "(rat \<Rightarrow> jsstring) \<Rightarrow> jsval \<Rightarrow> jsstring option" where
  "ToString nts JNull = Some (str ''null'')"
| "ToString nts (JBool b) = Some (if b then str ''true'' else str ''false'')"
| "ToString nts (JNum r) = Some (nts r)"
| "ToString nts (JStr s) = Some s"
| "ToString nts (JArr vs) =
     map_option (join_with (str '',''))
       (sequence (map (\<lambda>v. if v = JNull then Some [] else ToString nts v) vs))"
| "ToString nts (JObj kvs) =
     (if str ''toString'' \<in> fst ` set kvs then None else Some (str ''[object Object]''))"

section \<open>The application state\<close>

text \<open>
  A message object lives in \<open>heap\<close> and is held by reference (its index there):
  \<open>state.currentStreamMessage\<close> and an element of \<open>chat.messages\<close> can be the same
  object. Every reference the program holds was returned by an allocation.
\<close>

record message =
  role :: jsstring
  content :: jsstring
  timestamp :: jsstring
  liked :: "bool option"

record chat =
  chat_id :: jsstring
  title :: jsstring
  messages :: "nat list"
  createdAt :: jsstring
  model :: jsstring
  pinned :: bool

text \<open>
  What the program does to the outside, in order: the stream events of the
  specification, the console, the dialog and the two requests. \<open>ContentDelta\<close> is the
  call of \<open>updateStreamingMessage\<close> after \<open>parsed.content\<close> was appended (with the text
  appended), \<open>Completion\<close> the branch of a truthy \<open>parsed.done\<close>. \<open>ConsoleError\<close> has the
  label of the \<open>console.error\<close> call. The chat request has the prompt and the
  \<open>chat_history\<close>; a save request has PUT-or-POST, the chat and its messages.
\<close>

datatype effect =
    ContentDelta jsstring
  | Completion
  | ConsoleError jsstring
  | Alert jsstring
  | ChatRequest jsstring "(jsstring \<times> jsstring) list"
  | SaveRequest bool chat "message list"

text \<open>
  The state object of \<open>app.js\<close> (the fields \<open>sendMessage\<close> reaches), the message objects,
  the value of the text input, the number of save requests answered so far, and the
  trace of effects. The handler runs to its end without another handler in between.
\<close>

record world =
  currentChatId :: "jsstring option"
  chats :: "jsstring \<rightharpoonup> chat"
  isWaitingForResponse :: bool
  sidebarOpen :: bool
  currentFile :: "jsstring option"
  currentStreamResponse :: jsstring
  isStreaming :: bool
  currentStreamMessage :: "nat option"
  heap :: "message list"
  textInput :: jsstring
  saves :: nat
  trace :: "effect list"

text \<open>
  What the browser and the backend give to one call of \<open>sendMessage\<close>: the number
  formatting, the clock at its four reads and \<open>Date.now()\<close>, the selected model, the
  answer to each save (\<open>Some msg\<close>: it fails with that message), the message of the
  TypeError that the engine throws when \<open>getReader\<close> is read of a null \<open>response.body\<close>,
  and the answer to the chat request: \<open>fetch\<close> rejects, or responds with a status and a
  body that is read chunk by chunk until it ends or a read fails.
\<close>

datatype read_end = EndOfStream | ReadFails jsstring

datatype fetch_outcome = FetchFails jsstring | Response nat "byte list list" read_end

record env =
  Number_toString :: "rat \<Rightarrow> jsstring"
  date_now :: nat
  iso_created :: jsstring
  iso_user :: jsstring
  iso_stream :: jsstring
  iso_error :: jsstring
  modelSelector :: jsstring
  save_reply :: "nat \<Rightarrow> jsstring option"
  null_body_message :: jsstring
  fetch_chat :: fetch_outcome

datatype flow = Continue world | Return world

datatype loop_result = Returned world | Ended world | Failed jsstring world

datatype settled = Resolved | Rejected jsstring

definition emit :: "effect \<Rightarrow> world \<Rightarrow> world" where
  "emit e w = w\<lparr>trace := trace w @ [e]\<rparr>"

text \<open>\<open>!state.currentChatId\<close> is true for \<open>null\<close> and for the empty string.\<close>

definition has_chat_id :: "world \<Rightarrow> bool" where
  "has_chat_id w = (currentChatId w \<noteq> None \<and> currentChatId w \<noteq> Some [])"

text \<open>\<open>state.chats.get(state.currentChatId)\<close>\<close>

definition current_chat :: "world \<Rightarrow> chat option" where
  "current_chat w = (case currentChatId w of None \<Rightarrow> None | Some k \<Rightarrow> chats w k)"

text \<open>A mutation of the chat object found under \<open>state.currentChatId\<close>.\<close>

definition put_current_chat :: "chat \<Rightarrow> world \<Rightarrow> world" where
  "put_current_chat c w =
     (case currentChatId w of None \<Rightarrow> w | Some k \<Rightarrow> w\<lparr>chats := (chats w)(k \<mapsto> c)\<rparr>)"

definition set_content :: "nat \<Rightarrow> jsstring \<Rightarrow> world \<Rightarrow> world" where
  "set_content r text w = w\<lparr>heap := (heap w)[r := (heap w ! r)\<lparr>content := text\<rparr>]\<rparr>"

text \<open>
  \<open>saveChatToBackend(chat)\<close>, app.js 1536: PUT when \<open>state.chats\<close> has the id, POST
  otherwise; a failure is logged and thrown again (\<open>Inl\<close>).

  Modelled from the spec: the backend is not under src/; on success it returns the chat
  it was sent (section 6, \<open>save(Chat) -> Chat\<close>).
\<close>

definition saveChatToBackend :: "env \<Rightarrow> chat \<Rightarrow> world \<Rightarrow> (jsstring + chat) \<times> world" where
  "saveChatToBackend env c w =
     (let w1 = emit (SaveRequest (chats w (chat_id c) \<noteq> None) c (map ((!) (heap w)) (messages c))) w;
          w2 = w1\<lparr>saves := saves w1 + 1\<rparr>
      in case save_reply env (saves w) of
           Some msg \<Rightarrow> (Inl msg, emit (ConsoleError (str ''Error saving chat to backend:'')) w2)
         | None \<Rightarrow> (Inr c, w2))"

text \<open>\<open>createNewChat()\<close>, app.js 931\<close>

definition createNewChat :: "env \<Rightarrow> world \<Rightarrow> world" where
  "createNewChat env w =
     (let chatId = str ''chat_'' @ decimal (date_now env);
          c = \<lparr>chat_id = chatId, title = str ''New Chat'', messages = [],
               createdAt = iso_created env, model = modelSelector env, pinned = False\<rparr>
      in case saveChatToBackend env c w of
           (Inr savedChat, w1) \<Rightarrow>
             w1\<lparr>chats := (chats w1)(chatId \<mapsto> savedChat), currentChatId := Some chatId,
                sidebarOpen := False\<rparr>
         | (Inl msg, w1) \<Rightarrow>
             emit (Alert (str ''Error creating new chat: '' @ msg))
               (emit (ConsoleError (str ''Error creating chat:'')) w1))"

text \<open>
  \<open>addMessageToChat(role, content)\<close>, app.js 1181. \<open>ts\<close> is the clock at this call. A
  failing save is not caught here.
\<close>

definition addMessageToChat ::
  "env \<Rightarrow> jsstring \<Rightarrow> jsstring \<Rightarrow> jsstring \<Rightarrow> world \<Rightarrow> settled \<times> world" where
  "addMessageToChat env rl text ts w =
     (let w1 = (if \<not> has_chat_id w then createNewChat env w else w)
      in case current_chat w1 of
           None \<Rightarrow> (Resolved, w1)
         | Some c \<Rightarrow>
             (let r = length (heap w1);
                  w2 = w1\<lparr>heap := heap w1 @ [\<lparr>role = rl, content = text, timestamp = ts,
                                               liked = None\<rparr>]\<rparr>;
                  c1 = c\<lparr>messages := messages c @ [r]\<rparr>;
                  c2 = (if rl = str ''user'' \<and> length (messages c1) = 1
                        then c1\<lparr>title := take 30 text @ (if 30 < length text then str ''...'' else [])\<rparr>
                        else c1);
                  w3 = put_current_chat c2 w2
              in case saveChatToBackend env c2 w3 of
                   (Inl msg, w4) \<Rightarrow> (Rejected msg, w4)
                 | (Inr saved, w4) \<Rightarrow> (Resolved, w4)))"

text \<open>\<open>buildChatHistory()\<close>, app.js 1061: all messages of the chat but the last.\<close>

definition buildChatHistory :: "world \<Rightarrow> (jsstring \<times> jsstring) list" where
  "buildChatHistory w =
     (if \<not> has_chat_id w then []
      else case current_chat w of
             None \<Rightarrow> []
           | Some c \<Rightarrow> map (\<lambda>r. (role (heap w ! r), content (heap w ! r))) (butlast (messages c)))"

text \<open>
  \<open>updateStreamingMessage(content, messageElement)\<close>, app.js 1117: nothing without a
  streaming message; otherwise its content is set and the element rendered.
\<close>

definition updateStreamingMessage :: "jsstring \<Rightarrow> world \<Rightarrow> world" where
  "updateStreamingMessage text w =
     (case currentStreamMessage w of None \<Rightarrow> w | Some r \<Rightarrow> set_content r text w)"

section \<open>sendMessage\<close>

text \<open>
  The branch of a truthy \<open>parsed.done\<close>, app.js 1028-1044. The save is awaited inside the
  \<open>try\<close> of the frame: when it fails, the \<open>catch\<close> logs it and the loop over the lines
  goes on, the message pushed and the streaming message still set.
\<close>

definition finish_stream :: "env \<Rightarrow> world \<Rightarrow> flow" where
  "finish_stream env w =
     (let w1 = emit Completion (w\<lparr>isStreaming := False, isWaitingForResponse := False\<rparr>);
          finish = (\<lambda>w'. Return (w'\<lparr>currentStreamMessage := None, currentStreamResponse := []\<rparr>))
      in case currentStreamMessage w1 of
           None \<Rightarrow> finish w1
         | Some r \<Rightarrow>
             if \<not> has_chat_id w1 then finish w1
             else
               (case current_chat w1 of
                  None \<Rightarrow> finish w1
                | Some c \<Rightarrow>
                    (let c1 = c\<lparr>messages := messages c @ [r]\<rparr>;
                         w2 = put_current_chat c1 w1
                     in case saveChatToBackend env c1 w2 of
                          (Inl msg, w3) \<Rightarrow>
                            Continue (emit (ConsoleError (str ''Error parsing stream data:'')) w3)
                        | (Inr saved, w3) \<Rightarrow> finish w3)))"

text \<open>
  \<open>state.currentStreamResponse += parsed.content\<close> and the call of the sink, app.js
  1046-1049; a TypeError of the conversion is caught and logged like a parse error.
\<close>

definition append_content :: "env \<Rightarrow> jsval \<Rightarrow> world \<Rightarrow> flow" where
  "append_content env v w =
     (case ToString (Number_toString env) v of
        None \<Rightarrow> Continue (emit (ConsoleError (str ''Error parsing stream data:'')) w)
      | Some text \<Rightarrow>
          (let w1 = w\<lparr>currentStreamResponse := currentStreamResponse w @ text\<rparr>
           in Continue (updateStreamingMessage (currentStreamResponse w1)
                          (emit (ContentDelta text) w1))))"

text \<open>The body of \<open>for (const line of lines)\<close>, app.js 1020-1053.\<close>

definition process_line :: "env \<Rightarrow> jsstring \<Rightarrow> world \<Rightarrow> flow" where
  "process_line env line w =
     (if \<not> startsWith line (str ''data: '') then Continue w
      else
        (let data = slice_from 6 line
         in if data = [] \<or> data = str ''[DONE]'' then Continue w
            else
              (case JSON_parse data of
                 None \<Rightarrow> Continue (emit (ConsoleError (str ''Error parsing stream data:'')) w)
               | Some parsed \<Rightarrow>
                   (case member parsed (str ''done'') of
                      TypeError \<Rightarrow>
                        Continue (emit (ConsoleError (str ''Error parsing stream data:'')) w)
                    | done \<Rightarrow>
                        if truthy done then finish_stream env w
                        else
                          (case member parsed (str ''content'') of
                             Value v \<Rightarrow>
                               if ToBoolean v then append_content env v w else Continue w
                           | _ \<Rightarrow> Continue w)))))"

fun process_lines :: "env \<Rightarrow> jsstring list \<Rightarrow> world \<Rightarrow> flow" where
  "process_lines env [] w = Continue w"
| "process_lines env (line # lines) w =
     (case process_line env line w of
        Return w' \<Rightarrow> Return w'
      | Continue w' \<Rightarrow> process_lines env lines w')"

text \<open>
  \<open>while (true)\<close>, app.js 1013-1054: each chunk is decoded by itself and split by itself.
  The reads are the chunks of the body, then its end: the end of the stream breaks the
  loop, a failing read throws.
\<close>

fun read_loop :: "env \<Rightarrow> byte list list \<Rightarrow> read_end \<Rightarrow> world \<Rightarrow> loop_result" where
  "read_loop env [] EndOfStream w = Ended w"
| "read_loop env [] (ReadFails msg) w = Failed msg w"
| "read_loop env (value # rest) e w =
     (case process_lines env (split_nl (decode value)) w of
        Return w' \<Rightarrow> Returned w'
      | Continue w' \<Rightarrow> read_loop env rest e w')"

text \<open>
  \<open>handleSendMessageError(error)\<close>, app.js 1076; \<open>msg\<close> is \<open>error.message\<close>. A save that
  fails here ends the handler where it is.
\<close>

definition handleSendMessageError :: "env \<Rightarrow> jsstring \<Rightarrow> world \<Rightarrow> world" where
  "handleSendMessageError env msg w =
     (let w1 = emit (ConsoleError (str ''Send message failed:'')) w;
          w2 = w1\<lparr>isStreaming := False, isWaitingForResponse := False\<rparr>;
          text = str ''Connection error: '' @ msg
      in case currentStreamMessage w2 of
           Some r \<Rightarrow>
             (let w3 = updateStreamingMessage text (set_content r text w2);
                  finish = (\<lambda>w'. w'\<lparr>currentStreamMessage := None, currentStreamResponse := []\<rparr>)
              in case current_chat w3 of
                   None \<Rightarrow> finish w3
                 | Some c \<Rightarrow>
                     (let c1 = c\<lparr>messages := messages c @ [r]\<rparr>;
                          w4 = put_current_chat c1 w3
                      in case saveChatToBackend env c1 w4 of
                           (Inl m, w5) \<Rightarrow> w5
                         | (Inr saved, w5) \<Rightarrow> finish w5))
         | None \<Rightarrow>
             (case addMessageToChat env (str ''assistant'') text (iso_error env) w2 of
                (Rejected m, w3) \<Rightarrow> w3
              | (Resolved, w3) \<Rightarrow> w3\<lparr>currentStreamResponse := []\<rparr>))"

text \<open>\<open>response.ok\<close>\<close>

definition response_ok :: "nat \<Rightarrow> bool" where
  "response_ok status = (200 \<le> status \<and> status \<le> 299)"

text \<open>
  The null body statuses of the Fetch standard. The response to a POST has a body unless
  its status is one of them; then \<open>response.body\<close> is \<open>null\<close> and \<open>response.body.getReader()\<close>
  throws a TypeError.
\<close>

definition null_body_status :: "nat \<Rightarrow> bool" where
  "null_body_status status =
     (status = 101 \<or> status = 103 \<or> status = 204 \<or> status = 205 \<or> status = 304)"

text \<open>
  \<open>sendMessage()\<close>, app.js 959-1058. The user's message is added before the \<open>try\<close>: when
  its save fails the promise is rejected. Everything thrown after that goes to
  \<open>handleSendMessageError\<close>, which is not awaited: the promise of \<open>sendMessage\<close> is resolved
  also when the handler fails. Of the payload the trace keeps the prompt and the history.
\<close>

definition sendMessage :: "env \<Rightarrow> world \<Rightarrow> settled \<times> world" where
  "sendMessage env w =
     (let message = trim (textInput w)
      in if message = [] \<or> isWaitingForResponse w \<or> isStreaming w then (Resolved, w)
         else
           (case addMessageToChat env (str ''user'') message (iso_user env) w of
              (Rejected m, w1) \<Rightarrow> (Rejected m, w1)
            | (Resolved, w1) \<Rightarrow>
                (let w2 = w1\<lparr>textInput := [], currentFile := None, isWaitingForResponse := True,
                              isStreaming := True, currentStreamResponse := []\<rparr>;
                     chatHistory = buildChatHistory w2;
                     w3 = w2\<lparr>heap := heap w2 @ [\<lparr>role = str ''assistant'', content = [],
                                                   timestamp = iso_stream env, liked = None\<rparr>],
                              currentStreamMessage := Some (length (heap w2))\<rparr>;
                     w4 = emit (ChatRequest message chatHistory) w3
                 in case fetch_chat env of
                      FetchFails msg \<Rightarrow> (Resolved, handleSendMessageError env msg w4)
                    | Response status chunks e \<Rightarrow>
                        if \<not> response_ok status then
                          (Resolved,
                           handleSendMessageError env
                             (str ''HTTP error! status: '' @ decimal status) w4)
                        else if null_body_status status then
                          (Resolved, handleSendMessageError env (null_body_message env) w4)
                        else
                          (case read_loop env chunks e w4 of
                             Returned w5 \<Rightarrow> (Resolved, w5)
                           | Ended w5 \<Rightarrow> (Resolved, w5)
                           | Failed msg w5 \<Rightarrow> (Resolved, handleSendMessageError env msg w5)))))"

subsection \<open>The older copy\<close>

text \<open>
  The \<open>catch\<close> of \<open>sendMessage\<close> in src/unnamed/part_000, 461-483, written in place: nothing
  is logged, the chat is looked up only under a chat id, the save is awaited inside
  \<open>sendMessage\<close> (when it fails the promise is rejected and the two assignments after it
  are not reached), and without a streaming message nothing is added.
\<close>

definition catch_part_000 :: "env \<Rightarrow> jsstring \<Rightarrow> world \<Rightarrow> settled \<times> world" where
  "catch_part_000 env msg w =
     (let w1 = w\<lparr>isStreaming := False, isWaitingForResponse := False\<rparr>;
          finish = (\<lambda>w'. (Resolved, w'\<lparr>currentStreamMessage := None, currentStreamResponse := []\<rparr>))
      in case currentStreamMessage w1 of
           None \<Rightarrow> finish w1
         | Some r \<Rightarrow>
             (let text = str ''Connection error: '' @ msg;
                  w2 = updateStreamingMessage text (set_content r text w1)
              in if \<not> has_chat_id w2 then finish w2
                 else
                   (case current_chat w2 of
                      None \<Rightarrow> finish w2
                    | Some c \<Rightarrow>
                        (let c1 = c\<lparr>messages := messages c @ [r]\<rparr>;
                             w3 = put_current_chat c1 w2
                         in case saveChatToBackend env c1 w3 of
                              (Inl m, w4) \<Rightarrow> (Rejected m, w4)
                            | (Inr saved, w4) \<Rightarrow> finish w4))))"

text \<open>
  \<open>sendMessage()\<close> of src/unnamed/part_000, 328-484: the streaming message is created
  before the history is built, the read loop is the same, and the \<open>catch\<close> is the one
  above.
\<close>

definition sendMessage_part_000 :: "env \<Rightarrow> world \<Rightarrow> settled \<times> world" where
  "sendMessage_part_000 env w =
     (let message = trim (textInput w)
      in if message = [] \<or> isWaitingForResponse w \<or> isStreaming w then (Resolved, w)
         else
           (case addMessageToChat env (str ''user'') message (iso_user env) w of
              (Rejected m, w1) \<Rightarrow> (Rejected m, w1)
            | (Resolved, w1) \<Rightarrow>
                (let w2 = w1\<lparr>textInput := [], currentFile := None, isWaitingForResponse := True,
                              isStreaming := True, currentStreamResponse := []\<rparr>;
                     w3 = w2\<lparr>heap := heap w2 @ [\<lparr>role = str ''assistant'', content = [],
                                                   timestamp = iso_stream env, liked = None\<rparr>],
                              currentStreamMessage := Some (length (heap w2))\<rparr>;
                     chatHistory = buildChatHistory w3;
                     w4 = emit (ChatRequest message chatHistory) w3
                 in case fetch_chat env of
                      FetchFails msg \<Rightarrow> catch_part_000 env msg w4
                    | Response status chunks e \<Rightarrow>
                        if \<not> response_ok status then
                          catch_part_000 env (str ''HTTP error! status: '' @ decimal status) w4
                        else if null_body_status status then
                          catch_part_000 env (null_body_message env) w4
                        else
                          (case read_loop env chunks e w4 of
                             Returned w5 \<Rightarrow> (Resolved, w5)
                           | Ended w5 \<Rightarrow> (Resolved, w5)
                           | Failed msg w5 \<Rightarrow> catch_part_000 env msg w5))))"

section \<open>Observations and example inputs\<close>

fun flow_world :: "flow \<Rightarrow> world" where
  "flow_world (Continue w) = w"
| "flow_world (Return w) = w"

fun world_of :: "loop_result \<Rightarrow> world" where
  "world_of (Returned w) = w"
| "world_of (Ended w) = w"
| "world_of (Failed msg w) = w"

text \<open>The stream events of a trace, and the texts of its content deltas.\<close>

fun is_stream_event :: "effect \<Rightarrow> bool" where
  "is_stream_event (ContentDelta text) = True"
| "is_stream_event Completion = True"
| "is_stream_event e = False"

definition stream_events :: "effect list \<Rightarrow> effect list" where
  "stream_events tr = filter is_stream_event tr"

fun delta :: "effect \<Rightarrow> jsstring list" where
  "delta (ContentDelta text) = [text]"
| "delta e = []"

definition deltas :: "effect list \<Rightarrow> jsstring list" where
  "deltas tr = concat (map delta tr)"

text \<open>ASCII text as the bytes of a chunk.\<close>

definition bytes :: "string \<Rightarrow> byte list" where
  "bytes s = map of_char s"

text \<open>
  The state of app.js 14-36 when the page has loaded, and the same with a prompt typed
  into the text input.
\<close>

definition idle :: world where
  "idle = \<lparr>currentChatId = None, chats = Map.empty, isWaitingForResponse = False,
            sidebarOpen = True, currentFile = None, currentStreamResponse = [],
            isStreaming = False, currentStreamMessage = None, heap = [], textInput = [],
            saves = 0, trace = []\<rparr>"

definition typed :: "string \<Rightarrow> world" where
  "typed s = idle\<lparr>textInput := str s\<rparr>"

text \<open>
  A browser whose backend accepts the saves that \<open>accepts\<close> counts in (by their number)
  and answers the chat request with \<open>f\<close>. The examples carry no number, so its number
  formatting is never asked.
\<close>

definition page :: "(nat \<Rightarrow> bool) \<Rightarrow> fetch_outcome \<Rightarrow> env" where
  "page accepts f =
     \<lparr>Number_toString = (\<lambda>r. []), date_now = 1700000000000,
      iso_created = str ''2023-11-14T22:13:20.000Z'', iso_user = str ''2023-11-14T22:13:20.050Z'',
      iso_stream = str ''2023-11-14T22:13:20.100Z'', iso_error = str ''2023-11-14T22:13:21.000Z'',
      modelSelector = str ''gpt'',
      save_reply = (\<lambda>k. if accepts k then None
                         else Some (str ''HTTP error! status: 500, message: '')),
      null_body_message = str ''response.body is null'',
      fetch_chat = f\<rparr>"

definition healthy :: "fetch_outcome \<Rightarrow> env" where
  "healthy f = page (\<lambda>k. True) f"

text \<open>
  The session in which the prompt \<open>hi\<close> was sent and the read loop is about to read its
  first chunk: what \<open>sendMessage\<close> leaves when the stream ends at once.
\<close>

definition streaming :: world where
  "streaming = snd (sendMessage (healthy (Response 200 [] EndOfStream)) (typed ''hi''))"

text \<open>The three chunks of the specification's example.\<close>

definition hello_chunks :: "byte list list" where
  \<open>hello_chunks =
     [bytes ''data: {"content":"Hel'', bytes ''lo"}\<newline>'', bytes ''data: {"done":true}\<newline>'']\<close>

text \<open>Its first frame alone, split inside the line, and the same frames on whole lines.\<close>

definition hello_split :: "byte list list" where
  \<open>hello_split = [bytes ''data: {"content":"Hel'', bytes ''lo"}\<newline>'']\<close>

definition hello_lines :: "byte list list" where
  \<open>hello_lines = [bytes ''data: {"content":"Hello"}\<newline>'', bytes ''data: {"done":true}\<newline>'']\<close>

text \<open>
  A content frame with the two bytes C3 A9 of U+00E9, split between them and after them.
\<close>

definition acute_split :: "byte list list" where
  \<open>acute_split = [bytes ''data: {"content":"'' @ [0xC3], [0xA9] @ bytes ''"}\<newline>'']\<close>

definition acute_whole :: "byte list list" where
  \<open>acute_whole = [bytes ''data: {"content":"'' @ [0xC3, 0xA9], bytes ''"}\<newline>'']\<close>

text \<open>One chunk with a done frame, a content frame and a second done frame.\<close>

definition done_twice :: "byte list list" where
  \<open>done_twice =
     [bytes ''data: {"done":true}\<newline>data: {"content":"late"}\<newline>data: {"done":true}\<newline>'']\<close>



definition two_deltas :: "byte list list" where
  \<open>two_deltas = [bytes ''data: {"content":"a"}\<newline>'', bytes ''data: {"content":"b"}\<newline>'']\<close>

text \<open>The two content frames and then a read that fails, or the end of the body.\<close>

definition read_failure :: env where
  "read_failure = healthy (Response 200 two_deltas (ReadFails (str ''network error'')))"

definition open_ended :: env where
  "open_ended = healthy (Response 200 two_deltas EndOfStream)"

text \<open>
  A backend that accepts the first \<open>n\<close> saves and refuses the later ones; and two browsers
  whose chat request is rejected by \<open>fetch\<close>: with no save accepted no chat can be created,
  with two accepted the chat is created and the prompt saved, and the save after them is
  refused.
\<close>

definition accepting :: "nat \<Rightarrow> fetch_outcome \<Rightarrow> env" where
  "accepting n f = page (\<lambda>k. k < n) f"

definition no_backend :: env where
  "no_backend = accepting 0 (FetchFails (str ''Failed to fetch''))"

definition save_refused :: env where
  "save_refused = accepting 2 (FetchFails (str ''Failed to fetch''))"

subsection \<open>Chunks and the decoder\<close>

text \<open>The output of the decoder over some bytes, without the flush at the end of queue.\<close>

fun utf8_out :: "utf8_decoder \<Rightarrow> byte list \<Rightarrow> nat list" where
  "utf8_out d [] = []"
| "utf8_out d (b # bs) = (case utf8_handler d b of (d', out) \<Rightarrow> out @ utf8_out d' bs)"

text \<open>A chunk that begins with the byte-order mark EF BB BF.\<close>

definition has_bom :: "byte list \<Rightarrow> bool" where
  "has_bom c = (take 3 c = [0xEF, 0xBB, 0xBF])"

text \<open>A chunk whose last bytes begin a multi-byte character and do not finish it.\<close>

definition ends_inside_character :: "byte list \<Rightarrow> bool" where
  "ends_inside_character c = (bytes_needed (utf8_state utf8_init c) \<noteq> 0)"

text \<open>
  The states the decoder reaches: with no byte pending it is the initial state, and a
  continuation byte is never expected below 0x80.
\<close>

definition settled_decoder :: "utf8_decoder \<Rightarrow> bool" where
  "settled_decoder d = ((bytes_needed d = 0 \<longrightarrow> d = utf8_init) \<and> 0x80 \<le> lower_boundary d)"

subsection \<open>Frames\<close>

text \<open>A line that is a frame whose payload parses to a value with a truthy \<open>done\<close>.\<close>

definition done_frame :: "jsstring \<Rightarrow> bool" where
  "done_frame line =
     (startsWith line (str ''data: '')
      \<and> (case JSON_parse (slice_from 6 line) of
            None \<Rightarrow> False
          | Some parsed \<Rightarrow> truthy (member parsed (str ''done''))))"

definition carries_done :: "byte list \<Rightarrow> bool" where
  "carries_done chunk = list_ex done_frame (split_nl (decode chunk))"

subsection \<open>Two runs side by side\<close>


text \<open>The stream events that \<open>w'\<close> has more than \<open>w\<close>.\<close>

definition emitted :: "world \<Rightarrow> world \<Rightarrow> effect list" where
  "emitted w w' = drop (length (stream_events (trace w))) (stream_events (trace w'))"

text \<open>How the read loop ended.\<close>

datatype ending = Completed | StreamEnded | ReadFailed jsstring

fun ending_of :: "loop_result \<Rightarrow> ending" where
  "ending_of (Returned w) = Completed"
| "ending_of (Ended w) = StreamEnded"
| "ending_of (Failed msg w) = ReadFailed msg"

fun is_return :: "flow \<Rightarrow> bool" where
  "is_return (Return w) = True"
| "is_return (Continue w) = False"


definition loops_alike :: "world \<Rightarrow> world \<Rightarrow> loop_result \<Rightarrow> loop_result \<Rightarrow> bool" where
  "loops_alike w1 w2 r1 r2 =
     (ending_of r1 = ending_of r2
      \<and> (\<exists>new. stream_events (trace (world_of r1)) = stream_events (trace w1) @ new
              \<and> stream_events (trace (world_of r2)) = stream_events (trace w2) @ new))"

text \<open>
  Two runs that go the same way with the same new stream events, whatever their
  sessions are.
\<close>

definition flows_agree :: "world \<Rightarrow> world \<Rightarrow> flow \<Rightarrow> flow \<Rightarrow> bool" where
  "flows_agree w1 w2 f1 f2 =
     (is_return f1 = is_return f2
      \<and> (\<exists>new. stream_events (trace (flow_world f1)) = stream_events (trace w1) @ new
              \<and> stream_events (trace (flow_world f2)) = stream_events (trace w2) @ new))"

subsection \<open>A stream without a done frame\<close>

text \<open>The effects of a frame that is not a done frame: a content delta or a logged error.\<close>

fun quiet :: "effect \<Rightarrow> bool" where
  "quiet (ContentDelta text) = True"
| "quiet (ConsoleError l) = (l = str ''Error parsing stream data:'')"
| "quiet e = False"

definition forget :: "message \<Rightarrow> message" where
  "forget m = m\<lparr>content := []\<rparr>"

text \<open>
  What such frames leave as it was: everything but the accumulated response, the content
  of messages and the trace, which only grows, by quiet effects.
\<close>

definition streaming_kept :: "world \<Rightarrow> world \<Rightarrow> bool" where
  "streaming_kept w w' =
     (w'\<lparr>heap := heap w, currentStreamResponse := currentStreamResponse w, trace := trace w\<rparr> = w
      \<and> map forget (heap w') = map forget (heap w)
      \<and> take (length (trace w)) (trace w') = trace w
      \<and> list_all quiet (drop (length (trace w)) (trace w')))"

subsection \<open>Transport failures\<close>

text \<open>The first thing \<open>handleSendMessageError\<close> does: \<open>console.error('Send message failed:', error)\<close>.\<close>

definition failure_log :: effect where
  "failure_log = ConsoleError (str ''Send message failed:'')"

text \<open>What the trace of \<open>w'\<close> has more than the trace of \<open>w\<close>.\<close>

definition appended :: "world \<Rightarrow> world \<Rightarrow> effect list" where
  "appended w w' = drop (length (trace w)) (trace w')"

text \<open>
  The effects of a request that has not failed: the chat request, content deltas and
  logged parse errors. The effects of a call from the failure on are those from the first
  that is none of these.
\<close>

fun in_flight :: "effect \<Rightarrow> bool" where
  "in_flight (ChatRequest prompt history) = True"
| "in_flight e = quiet e"

definition after_failure :: "effect list \<Rightarrow> effect list" where
  "after_failure new = dropWhile in_flight new"

text \<open>
  The answers to the chat request with which the request or a read fails while no done
  frame has been seen, with \<open>error.message\<close>: \<open>fetch\<close> rejects; the status is not ok
  (app.js 1005); a read of the body fails after chunks without a done frame. A response
  without a body has no reads.
\<close>

definition transport_failure :: "fetch_outcome \<Rightarrow> jsstring option" where
  "transport_failure f =
     (case f of
        FetchFails msg \<Rightarrow> Some msg
      | Response status chunks e \<Rightarrow>
          if \<not> response_ok status then Some (str ''HTTP error! status: '' @ decimal status)
          else if null_body_status status then None
          else (case e of
                  EndOfStream \<Rightarrow> None
                | ReadFails msg \<Rightarrow> if list_ex carries_done chunks then None else Some msg))"

text \<open>
  What a call of \<open>sendMessage\<close> leaves when it has stored a failure with the message \<open>msg\<close>,
  seen from the session \<open>wa\<close> in which the prompt was added to the chat \<open>ca\<close>: the promise
  is resolved; the streaming message, which is the object allocated after \<open>wa\<close>, has the
  content \<open>Connection error: msg\<close> and is the last message of the current chat; the busy
  flags are cleared and no streaming message is left; and from the failure on the call
  has logged \<open>logged\<close>, has sent the save request of that chat with its messages as they
  are, and has done nothing else.
\<close>

definition failure_stored ::
  "env \<Rightarrow> jsstring \<Rightarrow> world \<Rightarrow> chat \<Rightarrow> effect list \<Rightarrow> settled \<times> world \<Rightarrow> bool" where
  "failure_stored env msg wa ca logged result =
     (case result of
        (outcome, w') \<Rightarrow>
          (let r = length (heap wa); c' = ca\<lparr>messages := messages ca @ [r]\<rparr>
           in outcome = Resolved
            \<and> current_chat w' = Some c'
            \<and> heap w' ! r = \<lparr>role = str ''assistant'', content = str ''Connection error: '' @ msg,
                               timestamp = iso_stream env, liked = None\<rparr>
            \<and> \<not> isStreaming w' \<and> \<not> isWaitingForResponse w'
            \<and> currentStreamMessage w' = None
            \<and> after_failure (appended wa w')
                = logged @ [SaveRequest (chats wa (chat_id ca) \<noteq> None) c'
                                        (map ((!) (heap w')) (messages c'))]))"

text \<open>
  The session \<open>x\<close> in which the \<open>catch\<close> starts, seen from \<open>wa\<close>: the streaming message is
  the object allocated after \<open>wa\<close>, with its role and timestamp; the chats and the number
  of saves are those of \<open>wa\<close>; the trace has grown by effects of the request only.
\<close>

definition at_failure :: "env \<Rightarrow> world \<Rightarrow> world \<Rightarrow> bool" where
  "at_failure env wa x =
     (currentStreamMessage x = Some (length (heap wa))
      \<and> currentChatId x = currentChatId wa \<and> chats x = chats wa \<and> saves x = saves wa
      \<and> length (heap x) = Suc (length (heap wa))
      \<and> forget (heap x ! length (heap wa))
          = \<lparr>role = str ''assistant'', content = [], timestamp = iso_stream env, liked = None\<rparr>
      \<and> take (length (trace wa)) (trace x) = trace wa
      \<and> list_all in_flight (drop (length (trace wa)) (trace x)))"

section \<open>Evaluating the model on concrete inputs\<close>

lemmas platform_defs =
  decode_def utf8_handler_def utf8_lead_def utf8_init_def utf16_def bytes_def str_def Let_def
  JSON_parse_def is_json_space_def is_digit_def cons_char_def cons_token_def
  startsWith_def slice_from_def trim_def is_js_space_def decimal.simps

lemmas app_defs =
  sendMessage_def addMessageToChat_def createNewChat_def saveChatToBackend_def
  handleSendMessageError_def process_line_def finish_stream_def append_content_def
  updateStreamingMessage_def buildChatHistory_def set_content_def put_current_chat_def
  current_chat_def has_chat_id_def emit_def response_ok_def null_body_status_def
  sendMessage_part_000_def catch_part_000_def

lemmas example_defs =
  idle_def typed_def page_def healthy_def accepting_def hello_chunks_def stream_events_def
  deltas_def

section \<open>The decoder, chunk by chunk\<close>

lemma utf8_run_out: "utf8_run d (xs @ ys) = utf8_out d xs @ utf8_run (utf8_state d xs) ys"
  by (induction xs arbitrary: d) (auto split: prod.splits)

lemma utf8_state_append: "utf8_state d (xs @ ys) = utf8_state (utf8_state d xs) ys"
  by (induction xs arbitrary: d) auto

lemma settled_init: "settled_decoder utf8_init"
  by (simp add: settled_decoder_def utf8_init_def)

lemma settled_lead: "settled_decoder (fst (utf8_lead utf8_init b))"
  by (simp add: settled_decoder_def utf8_lead_def utf8_init_def)

lemma settled_handler: "settled_decoder d \<Longrightarrow> settled_decoder (fst (utf8_handler d b))"
  using settled_lead [of "unat b"]
  by (auto simp: utf8_handler_def Let_def settled_init split: prod.splits)
     (auto simp: settled_decoder_def)

lemma settled_state: "settled_decoder d \<Longrightarrow> settled_decoder (utf8_state d bs)"
  by (induction bs arbitrary: d) (auto simp: settled_handler)

lemma newline_settles:
  "settled_decoder d \<Longrightarrow> fst (utf8_handler d 0x0A) = utf8_init \<and> (\<exists>out. snd (utf8_handler d 0x0A) = out @ [10])"
  by (auto simp: utf8_handler_def Let_def settled_decoder_def utf8_lead_def utf8_init_def)

subsection \<open>Only EF BB BF decodes to a byte-order mark\<close>

lemma unat_byte_eq: "unat (b :: byte) = n \<Longrightarrow> b = of_nat n"
  by auto

lemma flush_pending: "bytes_needed d \<noteq> 0 \<Longrightarrow> utf8_run d [] = [0xFFFD]"
  by simp

lemma step_out_of_range:
  "bytes_needed d \<noteq> 0 \<Longrightarrow> unat b < lower_boundary d \<or> upper_boundary d < unat b
   \<Longrightarrow> hd (utf8_run d (b # r)) = 0xFFFD"
  by (auto simp: utf8_handler_def Let_def split: prod.splits)

lemma step_finish:
  "bytes_needed d \<noteq> 0 \<Longrightarrow> lower_boundary d \<le> unat b \<Longrightarrow> unat b \<le> upper_boundary d
   \<Longrightarrow> bytes_seen d + 1 = bytes_needed d
   \<Longrightarrow> hd (utf8_run d (b # r)) = code_point d * 64 + unat b mod 64"
  by (auto simp: utf8_handler_def Let_def split: prod.splits)

lemma step_continue:
  "bytes_needed d \<noteq> 0 \<Longrightarrow> lower_boundary d \<le> unat b \<Longrightarrow> unat b \<le> upper_boundary d
   \<Longrightarrow> bytes_seen d + 1 \<noteq> bytes_needed d
   \<Longrightarrow> utf8_run d (b # r)
       = utf8_run (d\<lparr>lower_boundary := 0x80, upper_boundary := 0xBF,
                     code_point := code_point d * 64 + unat b mod 64,
                     bytes_seen := bytes_seen d + 1\<rparr>) r"
  by (auto simp: utf8_handler_def Let_def split: prod.splits)

lemma pending_bom:
  assumes "bytes_needed d \<noteq> 0" "bytes_seen d < bytes_needed d"
    and "hd (utf8_run d r) = 0xFEFF"
  shows "length (take (bytes_needed d - bytes_seen d) r) = bytes_needed d - bytes_seen d
         \<and> lower_boundary d \<le> unat (hd r) \<and> unat (hd r) \<le> upper_boundary d
         \<and> (\<forall>b \<in> set (take (bytes_needed d - bytes_seen d - 1) (tl r)). 0x80 \<le> unat b \<and> unat b \<le> 0xBF)
         \<and> foldl (\<lambda>cp b. cp * 64 + unat b mod 64) (code_point d)
               (take (bytes_needed d - bytes_seen d) r) = 0xFEFF"
  using assms
proof (induction r arbitrary: d)
  case Nil
  then show ?case by simp
next
  case (Cons b r)
  have inr: "lower_boundary d \<le> unat b \<and> unat b \<le> upper_boundary d"
  proof (rule ccontr)
    assume "\<not> ?thesis"
    then have "hd (utf8_run d (b # r)) = 0xFFFD"
      using step_out_of_range [of d b r] Cons.prems(1) by auto
    with Cons.prems(3) show False by simp
  qed
  show ?case
  proof (cases "bytes_seen d + 1 = bytes_needed d")
    case True
    then have "code_point d * 64 + unat b mod 64 = 0xFEFF"
      using step_finish [of d b r] Cons.prems inr by simp
    moreover have "bytes_needed d - bytes_seen d = Suc 0"
      using True by simp
    ultimately show ?thesis using inr by simp
  next
    case False
    define d' where "d' = d\<lparr>lower_boundary := 0x80, upper_boundary := 0xBF,
                     code_point := code_point d * 64 + unat b mod 64,
                     bytes_seen := bytes_seen d + 1\<rparr>"
    define m where "m = bytes_needed d' - bytes_seen d'"
    have run: "utf8_run d (b # r) = utf8_run d' r"
      unfolding d'_def using step_continue [of d b r] Cons.prems(1) inr False by simp
    have p: "bytes_needed d' \<noteq> 0" "bytes_seen d' < bytes_needed d'"
      using Cons.prems(1,2) False by (auto simp: d'_def)
    have feff: "hd (utf8_run d' r) = 0xFEFF"
      using run Cons.prems(3) by simp
    note ih = Cons.IH [OF p feff, folded m_def]
    have m: "bytes_needed d - bytes_seen d = Suc m" "0 < m"
      using Cons.prems(2) False by (auto simp: d'_def m_def)
    from ih have len: "length (take m r) = m"
      and hd: "0x80 \<le> unat (hd r)" "unat (hd r) \<le> 0xBF"
      and tl: "\<forall>b \<in> set (take (m - 1) (tl r)). 0x80 \<le> unat b \<and> unat b \<le> 0xBF"
      and fold: "foldl (\<lambda>cp b. cp * 64 + unat b mod 64) (code_point d') (take m r) = 0xFEFF"
      by (simp_all add: d'_def)
    from len m(2) obtain b' r' where r: "r = b' # r'"
      by (cases r) auto
    have all: "\<forall>b \<in> set (take m r). 0x80 \<le> unat b \<and> unat b \<le> 0xBF"
      using hd tl m(2) r by (cases m) auto
    show ?thesis
      unfolding m using len inr all fold by (simp add: d'_def)
  qed
qed

lemma lead_pending:
  "utf8_lead utf8_init n = (d, []) \<Longrightarrow>
     (0xC2 \<le> n \<and> n \<le> 0xDF \<and> bytes_needed d = 1 \<and> bytes_seen d = 0 \<and> code_point d = n mod 32)
   \<or> (0xE0 \<le> n \<and> n \<le> 0xEF \<and> bytes_needed d = 2 \<and> bytes_seen d = 0 \<and> code_point d = n mod 16
        \<and> 0x80 \<le> lower_boundary d \<and> upper_boundary d \<le> 0xBF)
   \<or> (0xF0 \<le> n \<and> n \<le> 0xF4 \<and> bytes_needed d = 3 \<and> bytes_seen d = 0 \<and> code_point d = n mod 8
        \<and> (if n = 0xF0 then 0x90 else 0x80) \<le> lower_boundary d \<and> upper_boundary d \<le> 0xBF)"
  by (auto simp: utf8_lead_def utf8_init_def split: if_splits)

lemma lead_not_bom:
  "utf8_lead utf8_init n = (d, out) \<Longrightarrow> out \<noteq> [] \<Longrightarrow> hd out \<noteq> 0xFEFF"
  by (auto simp: utf8_lead_def split: if_splits)

lemma mod_window:
  fixes n :: nat
  assumes "q * m \<le> n" "n < q * m + m"
  shows "n mod m = n - q * m"
proof -
  define k where "k = n - q * m"
  have n: "n = q * m + k" and k: "k < m"
    using assms by (auto simp: k_def)
  have "n mod m = k mod m"
    unfolding n by (rule mod_mult_self3)
  with k show ?thesis by (simp add: k_def)
qed

lemma mod64_continuation: "0x80 \<le> (n::nat) \<Longrightarrow> n \<le> 0xBF \<Longrightarrow> n mod 64 = n - 128"
  using mod_window [of 2 64 n] by simp

lemma mod16_lead: "0xE0 \<le> (n::nat) \<Longrightarrow> n \<le> 0xEF \<Longrightarrow> n mod 16 = n - 224"
  using mod_window [of 14 16 n] by simp

lemma mod8_lead: "0xF0 \<le> (n::nat) \<Longrightarrow> n \<le> 0xF4 \<Longrightarrow> n mod 8 = n - 240"
  using mod_window [of 30 8 n] by simp

lemma mod32_lt: "(n::nat) mod 32 * 64 + m mod 64 < 2048"
proof -
  have "n mod 32 < 32" "m mod 64 < 64" by simp_all
  then show ?thesis by linarith
qed

lemma last_digit:
  fixes x c m :: nat
  assumes "c < m"
  shows "(x * m + c) div m = x \<and> (x * m + c) mod m = c"
  using assms by simp

lemma bom_bytes:
  fixes n1 n2 n3 :: nat
  assumes "0xE0 \<le> n1" "n1 \<le> 0xEF" "0x80 \<le> n2" "n2 \<le> 0xBF" "0x80 \<le> n3" "n3 \<le> 0xBF"
    and "((n1 mod 16) * 64 + n2 mod 64) * 64 + n3 mod 64 = 0xFEFF"
  shows "n1 = 0xEF \<and> n2 = 0xBB \<and> n3 = 0xBF"
proof -
  define a b c where "a = n1 - 224" and "b = n2 - 128" and "c = n3 - 128"
  have bounds: "b < 64" "c < 64"
    using assms(3-6) by (auto simp: b_def c_def)
  have eq: "(a * 64 + b) * 64 + c = 65279"
    using assms mod16_lead [of n1] mod64_continuation [of n2] mod64_continuation [of n3]
    by (simp add: a_def b_def c_def)
  from last_digit [OF bounds(2), of "a * 64 + b"] eq
  have c: "c = 63" and ab: "a * 64 + b = 1019" by simp_all
  from last_digit [OF bounds(1), of a] ab
  have "b = 59" and "a = 15" by simp_all
  with c assms(1-6) show ?thesis
    by (auto simp: a_def b_def c_def)
qed

lemma four_bytes_large:
  fixes n1 n2 n3 n4 :: nat
  assumes "0xF0 \<le> n1" "n1 \<le> 0xF4" "(if n1 = 0xF0 then 0x90 else 0x80) \<le> n2" "n2 \<le> 0xBF"
  shows "(((n1 mod 8) * 64 + n2 mod 64) * 64 + n3 mod 64) * 64 + n4 mod 64 \<noteq> 0xFEFF"
proof -
  define x where "x = (n1 mod 8) * 64 + n2 mod 64"
  have n2: "0x80 \<le> n2" using assms(3) by (auto split: if_splits)
  have "16 \<le> (n1 - 240) * 64 + (n2 - 128)"
    using assms n2 by (auto split: if_splits)
  then have "16 \<le> x"
    using mod8_lead [of n1] mod64_continuation [of n2] assms n2 by (simp add: x_def)
  then have "16 * 64 \<le> x * 64 + n3 mod 64"
    by simp
  then have "(16 * 64) * 64 \<le> (x * 64 + n3 mod 64) * 64"
    by (rule mult_le_mono1)
  then have "65536 \<le> (x * 64 + n3 mod 64) * 64 + n4 mod 64"
    by simp
  then show ?thesis
    unfolding x_def by simp
qed

lemma no_bom_head:
  assumes "\<not> has_bom c"
  shows "strip_bom (utf8_run utf8_init c) = utf8_run utf8_init c"
proof -
  have "utf8_run utf8_init c = [] \<or> hd (utf8_run utf8_init c) \<noteq> 0xFEFF"
  proof (cases c)
    case Nil
    then show ?thesis by (simp add: utf8_init_def)
  next
    case (Cons b1 r1)
    obtain d out where lead: "utf8_lead utf8_init (unat b1) = (d, out)"
      by (cases "utf8_lead utf8_init (unat b1)")
    have run: "utf8_run utf8_init c = out @ utf8_run d r1"
      using Cons lead by (simp add: utf8_handler_def utf8_init_def)
    show ?thesis
    proof (cases "out = []")
      case False
      with run lead_not_bom [OF lead] show ?thesis by simp
    next
      case True
      show ?thesis
      proof (rule ccontr)
        assume "\<not> ?thesis"
        with run True have feff: "hd (utf8_run d r1) = 0xFEFF" by simp
        from lead_pending [OF lead [unfolded True]]
        consider (two) "bytes_needed d = 1" "bytes_seen d = 0" "code_point d = unat b1 mod 32"
          | (three) "0xE0 \<le> unat b1" "unat b1 \<le> 0xEF" "bytes_needed d = 2" "bytes_seen d = 0"
              "code_point d = unat b1 mod 16" "0x80 \<le> lower_boundary d" "upper_boundary d \<le> 0xBF"
          | (four) "0xF0 \<le> unat b1" "unat b1 \<le> 0xF4" "bytes_needed d = 3" "bytes_seen d = 0"
              "code_point d = unat b1 mod 8"
              "(if unat b1 = 0xF0 then 0x90 else 0x80) \<le> lower_boundary d" "upper_boundary d \<le> 0xBF"
          by auto
        then show False
        proof cases
          case two
          from pending_bom [of d r1] two feff
          have "foldl (\<lambda>cp b. cp * 64 + unat b mod 64) (unat b1 mod 32) (take 1 r1) = 0xFEFF"
            and "length (take 1 r1) = 1"
            by simp_all
          then obtain b2 :: byte where "(unat b1 mod 32) * 64 + unat b2 mod 64 = 0xFEFF"
            by (cases r1) auto
          then show False using mod32_lt [of "unat b1" "unat b2"] by simp
        next
          case three
          from pending_bom [of d r1] three feff
          have len: "length (take 2 r1) = 2"
            and b2: "lower_boundary d \<le> unat (hd r1)" "unat (hd r1) \<le> upper_boundary d"
            and b3: "\<forall>b \<in> set (take 1 (tl r1)). 0x80 \<le> unat b \<and> unat b \<le> 0xBF"
            and fold: "foldl (\<lambda>cp b. cp * 64 + unat b mod 64) (unat b1 mod 16) (take 2 r1) = 0xFEFF"
            by simp_all
          from len obtain b2 b3 r3 where r1: "r1 = b2 # b3 # r3"
            by (cases r1; cases "tl r1") auto
          have "unat b1 = 0xEF \<and> unat b2 = 0xBB \<and> unat b3 = 0xBF"
            using bom_bytes [of "unat b1" "unat b2" "unat b3"] b2 b3 fold r1 three by auto
          then have "b1 = 0xEF" "b2 = 0xBB" "b3 = 0xBF"
            by (auto dest: unat_byte_eq)
          then have "has_bom c" using Cons r1 by (simp add: has_bom_def)
          with assms show False by simp
        next
          case four
          from pending_bom [of d r1] four feff
          have len: "length (take 3 r1) = 3"
            and b2: "lower_boundary d \<le> unat (hd r1)" "unat (hd r1) \<le> upper_boundary d"
            and fold: "foldl (\<lambda>cp b. cp * 64 + unat b mod 64) (unat b1 mod 8) (take 3 r1) = 0xFEFF"
            by simp_all
          from len obtain b2 b3 b4 r4 where r1: "r1 = b2 # b3 # b4 # r4"
            by (cases r1; cases "tl r1"; cases "tl (tl r1)") auto
          show False
            using four_bytes_large [of "unat b1" "unat b2" "unat b3" "unat b4"] b2 fold r1 four
            by (auto split: if_splits)
        qed
      qed
    qed
  qed
  then show ?thesis
    by (cases "utf8_run utf8_init c") auto
qed

subsection \<open>Chunks that end between characters\<close>

lemma complete_chunk_state:
  "\<not> ends_inside_character c \<Longrightarrow> utf8_state utf8_init c = utf8_init"
  using settled_state [OF settled_init, of c]
  by (simp add: ends_inside_character_def settled_decoder_def)

lemma utf8_run_complete:
  "\<not> ends_inside_character c \<Longrightarrow> utf8_run utf8_init (c @ rest) = utf8_run utf8_init c @ utf8_run utf8_init rest"
  using utf8_run_out [of utf8_init c rest] utf8_run_out [of utf8_init c "[]"]
  by (simp add: complete_chunk_state) (simp add: utf8_init_def)

lemma utf8_run_concat:
  "\<forall>c \<in> set cs. \<not> ends_inside_character c \<Longrightarrow>
   utf8_run utf8_init (concat cs) = concat (map (utf8_run utf8_init) cs)"
proof (induction cs)
  case Nil
  then show ?case by (simp add: utf8_init_def)
next
  case (Cons c cs)
  then show ?case by (simp add: utf8_run_complete)
qed

lemma strip_bom_append: "strip_bom (xs @ ys) = (if xs = [] then strip_bom ys else strip_bom xs @ ys)"
  by (cases xs) auto

lemma strip_bom_concat_none:
  "\<forall>x \<in> set xs. strip_bom x = x \<Longrightarrow> strip_bom (concat xs) = concat xs"
  by (induction xs) (auto simp: strip_bom_append)

lemma strip_bom_concat:
  "\<forall>x \<in> set (tl xs). strip_bom x = x \<Longrightarrow> strip_bom (concat xs) = concat (map strip_bom xs)"
proof (cases xs)
  case Nil
  then show ?thesis by simp
next
  case (Cons x rest)
  assume "\<forall>x \<in> set (tl xs). strip_bom x = x"
  with Cons have rest: "\<forall>x \<in> set rest. strip_bom x = x" by simp
  then have "map strip_bom rest = rest"
    by (simp add: map_idI)
  with Cons rest show ?thesis
    by (simp add: strip_bom_append strip_bom_concat_none)
qed

lemma decode_concat:
  assumes "\<forall>c \<in> set cs. \<not> ends_inside_character c" and "\<forall>c \<in> set (tl cs). \<not> has_bom c"
  shows "decode (concat cs) = concat (map decode cs)"
proof -
  have "\<forall>x \<in> set (tl (map (utf8_run utf8_init) cs)). strip_bom x = x"
    using assms(2) by (cases cs) (auto simp: no_bom_head)
  then have "strip_bom (concat (map (utf8_run utf8_init) cs))
             = concat (map strip_bom (map (utf8_run utf8_init) cs))"
    by (rule strip_bom_concat)
  then have "decode (concat cs) = concat (map utf16 (concat (map (strip_bom \<circ> utf8_run utf8_init) cs)))"
    using assms(1) by (simp add: decode_def utf8_run_concat)
  also have "\<dots> = concat (map decode cs)"
    by (induction cs) (simp_all add: decode_def)
  finally show ?thesis .
qed

lemma newline_chunk:
  assumes "c \<noteq> []" "last c = 0x0A"
  shows "\<not> ends_inside_character c \<and> (\<exists>xs. decode c = xs @ [10])"
proof -
  from assms obtain c' where c: "c = c' @ [0x0A]"
    by (metis append_butlast_last_id)
  define d where "d = utf8_state utf8_init c'"
  have sd: "settled_decoder d"
    unfolding d_def by (rule settled_state [OF settled_init])
  from newline_settles [OF sd] obtain out where
    st: "fst (utf8_handler d 0x0A) = utf8_init" and out: "snd (utf8_handler d 0x0A) = out @ [10]"
    by auto
  have "utf8_state utf8_init c = utf8_init"
    unfolding c using st by (simp add: utf8_state_append d_def)
  then have 1: "\<not> ends_inside_character c"
    by (simp add: ends_inside_character_def utf8_init_def)
  have "utf8_run utf8_init c = (utf8_out utf8_init c' @ out) @ [10]"
    unfolding c utf8_run_out using st out
    by (cases "utf8_handler d 0x0A") (simp add: d_def utf8_init_def)
  moreover have "\<exists>zs. strip_bom (ys @ [10]) = zs @ [10::nat]" for ys
    by (cases ys) auto
  ultimately obtain zs where "strip_bom (utf8_run utf8_init c) = zs @ [10]"
    by metis
  then have "decode c = concat (map utf16 zs) @ [10]"
    by (simp add: decode_def utf16_def)
  with 1 show ?thesis by blast
qed

section \<open>The lines of a chunk\<close>

lemma split_nl_nonempty: "split_nl s \<noteq> []"
  by (induction s) (auto split: list.splits)

lemma split_nl_append: "split_nl (xs @ 10 # ys) = split_nl xs @ split_nl ys"
  using split_nl_nonempty
  by (induction xs) (auto split: list.splits)

lemma process_lines_append:
  "process_lines env (as @ bs) w =
     (case process_lines env as w of Return w' \<Rightarrow> Return w' | Continue w' \<Rightarrow> process_lines env bs w')"
  by (induction as arbitrary: w) (auto split: flow.splits)

lemma process_line_blank: "process_line env [] w = Continue w"
  by (simp add: process_line_def startsWith_def str_def)

lemma process_lines_terminated:
  "process_lines env (split_nl (xs @ [10])) w = process_lines env (split_nl xs) w"
  using split_nl_append [of xs "[]"]
  by (simp add: process_lines_append process_line_blank split: flow.splits)

lemma read_loop_joined:
  assumes "\<forall>c \<in> set cs. \<exists>xs. decode c = xs @ [10]"
  shows "read_loop env cs e w =
           (case process_lines env (split_nl (concat (map decode cs))) w of
              Return w' \<Rightarrow> Returned w'
            | Continue w' \<Rightarrow> read_loop env [] e w')"
  using assms
proof (induction cs arbitrary: w)
  case Nil
  then show ?case by (simp add: process_line_blank)
next
  case (Cons c cs)
  then obtain xs where xs: "decode c = xs @ [10]" by auto
  have ih: "read_loop env cs e w' =
           (case process_lines env (split_nl (concat (map decode cs))) w' of
              Return w'' \<Rightarrow> Returned w''
            | Continue w'' \<Rightarrow> read_loop env [] e w'')" for w'
    using Cons by simp
  have "split_nl (concat (map decode (c # cs))) = split_nl xs @ split_nl (concat (map decode cs))"
    using split_nl_append [of xs "concat (map decode cs)"] xs by simp
  then show ?case
    using xs ih by (simp add: process_lines_append process_lines_terminated split: flow.splits)
qed


section \<open>What the loop reads of the session\<close>

lemma current_chat_frame [simp]:
  "current_chat (w\<lparr>trace := t\<rparr>) = current_chat w"
  "current_chat (w\<lparr>heap := h\<rparr>) = current_chat w"
  "current_chat (w\<lparr>saves := n\<rparr>) = current_chat w"
  "current_chat (w\<lparr>currentStreamResponse := s\<rparr>) = current_chat w"
  "current_chat (w\<lparr>currentStreamMessage := m\<rparr>) = current_chat w"
  "current_chat (w\<lparr>isStreaming := b\<rparr>) = current_chat w"
  "current_chat (w\<lparr>isWaitingForResponse := b\<rparr>) = current_chat w"
  "current_chat (w\<lparr>textInput := s\<rparr>) = current_chat w"
  "current_chat (w\<lparr>currentFile := f\<rparr>) = current_chat w"
  "current_chat (w\<lparr>sidebarOpen := b\<rparr>) = current_chat w"
  by (simp_all add: current_chat_def split: option.splits)

lemma has_chat_id_frame [simp]:
  "has_chat_id (w\<lparr>trace := t\<rparr>) = has_chat_id w"
  "has_chat_id (w\<lparr>heap := h\<rparr>) = has_chat_id w"
  "has_chat_id (w\<lparr>saves := n\<rparr>) = has_chat_id w"
  "has_chat_id (w\<lparr>chats := cs\<rparr>) = has_chat_id w"
  "has_chat_id (w\<lparr>currentStreamResponse := s\<rparr>) = has_chat_id w"
  "has_chat_id (w\<lparr>currentStreamMessage := m\<rparr>) = has_chat_id w"
  "has_chat_id (w\<lparr>isStreaming := b\<rparr>) = has_chat_id w"
  "has_chat_id (w\<lparr>isWaitingForResponse := b\<rparr>) = has_chat_id w"
  "has_chat_id (w\<lparr>textInput := s\<rparr>) = has_chat_id w"
  "has_chat_id (w\<lparr>currentFile := f\<rparr>) = has_chat_id w"
  "has_chat_id (w\<lparr>sidebarOpen := b\<rparr>) = has_chat_id w"
  by (simp_all add: has_chat_id_def)

lemma current_chat_put:
  "current_chat (put_current_chat c w) = (if currentChatId w = None then None else Some c)"
  by (auto simp: current_chat_def put_current_chat_def split: option.splits)

lemma has_chat_id_put [simp]: "has_chat_id (put_current_chat c w) = has_chat_id w"
  by (auto simp: has_chat_id_def put_current_chat_def split: option.splits)

section \<open>Two runs side by side\<close>












section \<open>A stream without a done frame\<close>

lemma streaming_kept_refl: "streaming_kept w w"
  by (simp add: streaming_kept_def)

lemma streaming_kept_trans:
  assumes "streaming_kept a b" "streaming_kept b c"
  shows "streaming_kept a c"
proof -
  from assms have ab: "b\<lparr>heap := heap a, currentStreamResponse := currentStreamResponse a, trace := trace a\<rparr> = a"
    and bc: "c\<lparr>heap := heap b, currentStreamResponse := currentStreamResponse b, trace := trace b\<rparr> = b"
    by (simp_all add: streaming_kept_def)
  have "a = b\<lparr>heap := heap a, currentStreamResponse := currentStreamResponse a, trace := trace a\<rparr>"
    using ab by simp
  also have "\<dots> = (c\<lparr>heap := heap b, currentStreamResponse := currentStreamResponse b, trace := trace b\<rparr>)
                     \<lparr>heap := heap a, currentStreamResponse := currentStreamResponse a, trace := trace a\<rparr>"
    using bc by simp
  also have "\<dots> = c\<lparr>heap := heap a, currentStreamResponse := currentStreamResponse a, trace := trace a\<rparr>"
    by simp
  finally have 1: "c\<lparr>heap := heap a, currentStreamResponse := currentStreamResponse a, trace := trace a\<rparr> = a"
    by simp
  from assms obtain x y where x: "trace b = trace a @ x" "list_all quiet x"
    and y: "trace c = trace b @ y" "list_all quiet y"
    unfolding streaming_kept_def
    by (metis append_take_drop_id)
  then have "take (length (trace a)) (trace c) = trace a"
    "list_all quiet (drop (length (trace a)) (trace c))"
    by simp_all
  with 1 assms show ?thesis
    by (simp add: streaming_kept_def)
qed

lemma set_content_forget: "map forget (heap (set_content r text w)) = map forget (heap w)"
proof (cases "r < length (heap w)")
  case True
  then have "(map forget (heap w))[r := forget (heap w ! r)] = map forget (heap w)"
    by (metis list_update_id nth_map)
  then show ?thesis
    by (simp add: set_content_def map_update forget_def)
next
  case False
  then have "(heap w)[r := (heap w ! r)\<lparr>content := text\<rparr>] = heap w"
    by (simp add: list_update_beyond)
  then show ?thesis by (simp add: set_content_def)
qed

lemma not_done_line:
  assumes "\<not> done_frame line"
  shows "\<exists>w'. process_line env line w = Continue w' \<and> streaming_kept w w'"
proof (cases "startsWith line (str ''data: '')")
  case False
  then show ?thesis by (simp add: process_line_def streaming_kept_refl)
next
  case True
  show ?thesis
  proof (cases "JSON_parse (slice_from 6 line)")
    case None
    with True show ?thesis
      by (auto simp: process_line_def Let_def streaming_kept_def emit_def)
  next
    case (Some parsed)
    with True assms have nd: "\<not> truthy (member parsed (str ''done''))"
      by (simp add: done_frame_def)
    have content: "\<exists>w'. append_content env v w = Continue w' \<and> streaming_kept w w'" for v
      using set_content_forget [of _ _ "emit (ContentDelta _) (w\<lparr>currentStreamResponse := _\<rparr>)"]
      by (auto simp: append_content_def Let_def streaming_kept_def emit_def
          updateStreamingMessage_def set_content_def split: option.splits)
    from True Some nd content show ?thesis
      by (auto simp: process_line_def Let_def streaming_kept_def emit_def
          split: property.splits)
  qed
qed

lemma not_done_lines:
  "\<not> list_ex done_frame lines \<Longrightarrow> \<exists>w'. process_lines env lines w = Continue w' \<and> streaming_kept w w'"
proof (induction lines arbitrary: w)
  case Nil
  then show ?case by (simp add: streaming_kept_refl)
next
  case (Cons line lines)
  then obtain a where a: "process_line env line w = Continue a" "streaming_kept w a"
    using not_done_line [of line env w] by auto
  from Cons obtain b where "process_lines env lines a = Continue b" "streaming_kept a b"
    by fastforce
  with a show ?case
    by (auto intro: streaming_kept_trans)
qed

lemma not_done_loop:
  "\<not> list_ex carries_done cs \<Longrightarrow>
   \<exists>w'. streaming_kept w w'
        \<and> read_loop env cs e w = (case e of EndOfStream \<Rightarrow> Ended w' | ReadFails m \<Rightarrow> Failed m w')"
proof (induction cs arbitrary: w)
  case Nil
  then show ?case
    by (cases e) (auto simp: streaming_kept_refl)
next
  case (Cons c cs)
  then obtain a where a: "process_lines env (split_nl (decode c)) w = Continue a" "streaming_kept w a"
    using not_done_lines [of "split_nl (decode c)" env w] by (auto simp: carries_done_def)
  from Cons obtain b where "streaming_kept a b"
    "read_loop env cs e a = (case e of EndOfStream \<Rightarrow> Ended b | ReadFails m \<Rightarrow> Failed m b)"
    by fastforce
  with a show ?case
    by (auto intro: streaming_kept_trans)
qed

lemma streaming_kept_fields:
  assumes "streaming_kept w w'"
  shows "currentStreamMessage w' = currentStreamMessage w" "current_chat w' = current_chat w"
    "isStreaming w' = isStreaming w" "isWaitingForResponse w' = isWaitingForResponse w"
    "saves w' = saves w" "chats w' = chats w" "currentChatId w' = currentChatId w"
    "length (heap w') = length (heap w)"
proof -
  from assms have eq: "w'\<lparr>heap := heap w, currentStreamResponse := currentStreamResponse w, trace := trace w\<rparr> = w"
    by (simp add: streaming_kept_def)
  show "currentStreamMessage w' = currentStreamMessage w"
    using arg_cong [OF eq, of currentStreamMessage] by simp
  show "isStreaming w' = isStreaming w"
    using arg_cong [OF eq, of isStreaming] by simp
  show "isWaitingForResponse w' = isWaitingForResponse w"
    using arg_cong [OF eq, of isWaitingForResponse] by simp
  show "saves w' = saves w"
    using arg_cong [OF eq, of saves] by simp
  show c: "chats w' = chats w"
    using arg_cong [OF eq, of chats] by simp
  show i: "currentChatId w' = currentChatId w"
    using arg_cong [OF eq, of currentChatId] by simp
  show "current_chat w' = current_chat w"
    using c i by (simp add: current_chat_def split: option.splits)
  show "length (heap w') = length (heap w)"
    using assms by (metis length_map streaming_kept_def)
qed

section \<open>The error handler\<close>

lemma update_read_back: "xs[r := g (xs[r := a] ! r)] = xs[r := g a]"
  by (cases "r < length xs") (simp_all add: list_update_beyond)

lemma handler_saved:
  assumes x: "currentStreamMessage x = Some r" "current_chat x = Some cx"
    and saved: "save_reply env (saves x) = None"
  shows "current_chat (handleSendMessageError env msg x) = Some (cx\<lparr>messages := messages cx @ [r]\<rparr>)"
    and "heap (handleSendMessageError env msg x)
         = (heap x)[r := (heap x ! r)\<lparr>content := str ''Connection error: '' @ msg\<rparr>]"
    and "\<not> isStreaming (handleSendMessageError env msg x)"
    and "\<not> isWaitingForResponse (handleSendMessageError env msg x)"
    and "currentStreamMessage (handleSendMessageError env msg x) = None"
    and "trace (handleSendMessageError env msg x)
           = trace x @ [failure_log,
                        SaveRequest (chats x (chat_id cx) \<noteq> None) (cx\<lparr>messages := messages cx @ [r]\<rparr>)
                          (map ((!) (heap (handleSendMessageError env msg x))) (messages cx @ [r]))]"
proof -
  from x(2) obtain k where k: "currentChatId x = Some k" "chats x k = Some cx"
    by (auto simp: current_chat_def split: option.splits)
  then have put: "(chat_id cx = k \<or> chats x (chat_id cx) \<noteq> None) = (chats x (chat_id cx) \<noteq> None)"
    by auto
  note defs = handleSendMessageError_def Let_def emit_def updateStreamingMessage_def
    set_content_def saveChatToBackend_def current_chat_put failure_log_def update_read_back
    put_current_chat_def
  show "current_chat (handleSendMessageError env msg x) = Some (cx\<lparr>messages := messages cx @ [r]\<rparr>)"
    using x k saved by (simp add: defs current_chat_def)
  show "heap (handleSendMessageError env msg x)
         = (heap x)[r := (heap x ! r)\<lparr>content := str ''Connection error: '' @ msg\<rparr>]"
    using x k saved by (simp add: defs)
  show "\<not> isStreaming (handleSendMessageError env msg x)"
    using x k saved by (simp add: defs)
  show "\<not> isWaitingForResponse (handleSendMessageError env msg x)"
    using x k saved by (simp add: defs)
  show "currentStreamMessage (handleSendMessageError env msg x) = None"
    using x k saved by (simp add: defs)
  show "trace (handleSendMessageError env msg x)
           = trace x @ [failure_log,
                        SaveRequest (chats x (chat_id cx) \<noteq> None) (cx\<lparr>messages := messages cx @ [r]\<rparr>)
                          (map ((!) (heap (handleSendMessageError env msg x))) (messages cx @ [r]))]"
    using x k saved put by (simp add: defs)
qed

lemma catch_saved:
  assumes x: "currentStreamMessage x = Some r" "current_chat x = Some cx" "has_chat_id x"
    and saved: "save_reply env (saves x) = None"
  shows "fst (catch_part_000 env msg x) = Resolved"
    and "current_chat (snd (catch_part_000 env msg x)) = Some (cx\<lparr>messages := messages cx @ [r]\<rparr>)"
    and "heap (snd (catch_part_000 env msg x))
         = (heap x)[r := (heap x ! r)\<lparr>content := str ''Connection error: '' @ msg\<rparr>]"
    and "\<not> isStreaming (snd (catch_part_000 env msg x))"
    and "\<not> isWaitingForResponse (snd (catch_part_000 env msg x))"
    and "currentStreamMessage (snd (catch_part_000 env msg x)) = None"
    and "trace (snd (catch_part_000 env msg x))
           = trace x @ [SaveRequest (chats x (chat_id cx) \<noteq> None) (cx\<lparr>messages := messages cx @ [r]\<rparr>)
                          (map ((!) (heap (snd (catch_part_000 env msg x)))) (messages cx @ [r]))]"
proof -
  from x(2) obtain k where k: "currentChatId x = Some k" "chats x k = Some cx"
    by (auto simp: current_chat_def split: option.splits)
  then have put: "(chat_id cx = k \<or> chats x (chat_id cx) \<noteq> None) = (chats x (chat_id cx) \<noteq> None)"
    by auto
  note defs = catch_part_000_def Let_def emit_def updateStreamingMessage_def
    set_content_def saveChatToBackend_def current_chat_put update_read_back
    put_current_chat_def
  show "fst (catch_part_000 env msg x) = Resolved"
    using x k saved by (simp add: defs)
  show "current_chat (snd (catch_part_000 env msg x)) = Some (cx\<lparr>messages := messages cx @ [r]\<rparr>)"
    using x k saved by (simp add: defs current_chat_def)
  show "heap (snd (catch_part_000 env msg x))
         = (heap x)[r := (heap x ! r)\<lparr>content := str ''Connection error: '' @ msg\<rparr>]"
    using x k saved by (simp add: defs)
  show "\<not> isStreaming (snd (catch_part_000 env msg x))"
    using x k saved by (simp add: defs)
  show "\<not> isWaitingForResponse (snd (catch_part_000 env msg x))"
    using x k saved by (simp add: defs)
  show "currentStreamMessage (snd (catch_part_000 env msg x)) = None"
    using x k saved by (simp add: defs)
  show "trace (snd (catch_part_000 env msg x))
           = trace x @ [SaveRequest (chats x (chat_id cx) \<noteq> None) (cx\<lparr>messages := messages cx @ [r]\<rparr>)
                          (map ((!) (heap (snd (catch_part_000 env msg x)))) (messages cx @ [r]))]"
    using x k saved put by (simp add: defs)
qed

section \<open>A request that fails\<close>

lemma quiet_in_flight: "quiet e \<Longrightarrow> in_flight e"
  by (cases e) simp_all

lemma after_in_flight:
  assumes "list_all in_flight evs" "\<not> in_flight e"
  shows "dropWhile in_flight (evs @ e # rest) = e # rest"
  using assms by (induction evs) auto

lemma at_failure_sent:
  assumes kept: "streaming_kept w4 x"
    and w4: "w4 = emit (ChatRequest p h)
                    ((wa\<lparr>textInput := [], currentFile := None, isWaitingForResponse := True,
                         isStreaming := True, currentStreamResponse := []\<rparr>)
                       \<lparr>heap := heap wa @ [\<lparr>role = str ''assistant'', content = [],
                                            timestamp = iso_stream env, liked = None\<rparr>],
                        currentStreamMessage := Some (length (heap wa))\<rparr>)"
  shows "at_failure env wa x"
proof -
  define reply where "reply = \<lparr>role = str ''assistant'', content = [], timestamp = iso_stream env,
                               liked = None\<rparr>"
  have 1: "currentStreamMessage x = Some (length (heap wa))"
    using streaming_kept_fields(1) [OF kept] by (simp add: w4 emit_def)
  have 2: "currentChatId x = currentChatId wa" "chats x = chats wa" "saves x = saves wa"
    using streaming_kept_fields(5,6,7) [OF kept] by (simp_all add: w4 emit_def)
  have 3: "length (heap x) = Suc (length (heap wa))"
    using streaming_kept_fields(8) [OF kept] by (simp add: w4 emit_def)
  have "map forget (heap x) ! length (heap wa) = map forget (heap w4) ! length (heap wa)"
    using kept by (simp add: streaming_kept_def)
  then have 4: "forget (heap x ! length (heap wa)) = forget reply"
    using 3 nth_append_length [of "map forget (heap wa)" "forget reply" "[]"]
    by (simp add: w4 emit_def reply_def)
  from kept obtain evs where x_trace: "trace x = trace w4 @ evs" and evs: "list_all quiet evs"
    unfolding streaming_kept_def by (metis append_take_drop_id)
  have 5: "take (length (trace wa)) (trace x) = trace wa"
    "list_all in_flight (drop (length (trace wa)) (trace x))"
    using evs by (auto simp: x_trace w4 emit_def list_all_iff intro: quiet_in_flight)
  from 1 2 3 4 5 show ?thesis
    by (simp add: at_failure_def reply_def forget_def)
qed

lemma transport_failure_cases:
  assumes "transport_failure f = Some msg"
  shows "f = FetchFails msg
       \<or> (\<exists>status chunks e. f = Response status chunks e \<and> \<not> response_ok status
             \<and> msg = str ''HTTP error! status: '' @ decimal status)
       \<or> (\<exists>status chunks. f = Response status chunks (ReadFails msg) \<and> response_ok status
             \<and> \<not> null_body_status status \<and> \<not> list_ex carries_done chunks)"
  using assms
  by (auto simp: transport_failure_def split: fetch_outcome.splits read_end.splits if_splits)

lemma sendMessage_fails:
  assumes ready: "trim (textInput w) \<noteq> []" "\<not> isWaitingForResponse w" "\<not> isStreaming w"
    and added: "addMessageToChat env (str ''user'') (trim (textInput w)) (iso_user env) w = (Resolved, wa)"
    and fails: "transport_failure (fetch_chat env) = Some msg"
  shows "\<exists>x. at_failure env wa x \<and> sendMessage env w = (Resolved, handleSendMessageError env msg x)"
proof -
  define w2 where "w2 = wa\<lparr>textInput := [], currentFile := None, isWaitingForResponse := True,
                            isStreaming := True, currentStreamResponse := []\<rparr>"
  define w4 where "w4 = emit (ChatRequest (trim (textInput w)) (buildChatHistory w2))
                         (w2\<lparr>heap := heap wa @ [\<lparr>role = str ''assistant'', content = [],
                                                   timestamp = iso_stream env, liked = None\<rparr>],
                              currentStreamMessage := Some (length (heap wa))\<rparr>)"
  have sm: "sendMessage env w =
              (case fetch_chat env of
                 FetchFails m \<Rightarrow> (Resolved, handleSendMessageError env m w4)
               | Response status chunks e \<Rightarrow>
                   if \<not> response_ok status
                   then (Resolved, handleSendMessageError env (str ''HTTP error! status: '' @ decimal status) w4)
                   else if null_body_status status
                   then (Resolved, handleSendMessageError env (null_body_message env) w4)
                   else (case read_loop env chunks e w4 of
                           Returned w5 \<Rightarrow> (Resolved, w5)
                         | Ended w5 \<Rightarrow> (Resolved, w5)
                         | Failed m w5 \<Rightarrow> (Resolved, handleSendMessageError env m w5)))"
    using ready added
    by (simp add: sendMessage_def Let_def w4_def w2_def
        split: fetch_outcome.splits loop_result.splits)
  have at: "streaming_kept w4 x \<Longrightarrow> at_failure env wa x" for x
    by (rule at_failure_sent [where p = "trim (textInput w)" and h = "buildChatHistory w2"])
      (simp_all add: w4_def w2_def)
  from transport_failure_cases [OF fails] show ?thesis
  proof (elim disjE exE conjE)
    assume "fetch_chat env = FetchFails msg"
    with sm at [OF streaming_kept_refl] show ?thesis by auto
  next
    fix status chunks e
    assume "fetch_chat env = Response status chunks e" "\<not> response_ok status"
      "msg = str ''HTTP error! status: '' @ decimal status"
    with sm at [OF streaming_kept_refl] show ?thesis by auto
  next
    fix status chunks
    assume f: "fetch_chat env = Response status chunks (ReadFails msg)" "response_ok status"
      "\<not> null_body_status status" and nd: "\<not> list_ex carries_done chunks"
    from not_done_loop [OF nd, of w4 env "ReadFails msg"] obtain x where
      "streaming_kept w4 x" "read_loop env chunks (ReadFails msg) w4 = Failed msg x"
      by auto
    with f sm at show ?thesis by auto
  qed
qed

lemma sendMessage_part_000_fails:
  assumes ready: "trim (textInput w) \<noteq> []" "\<not> isWaitingForResponse w" "\<not> isStreaming w"
    and added: "addMessageToChat env (str ''user'') (trim (textInput w)) (iso_user env) w = (Resolved, wa)"
    and fails: "transport_failure (fetch_chat env) = Some msg"
  shows "\<exists>x. at_failure env wa x \<and> sendMessage_part_000 env w = catch_part_000 env msg x"
proof -
  define w3 where "w3 = (wa\<lparr>textInput := [], currentFile := None, isWaitingForResponse := True,
                            isStreaming := True, currentStreamResponse := []\<rparr>)
                         \<lparr>heap := heap wa @ [\<lparr>role = str ''assistant'', content = [],
                                                   timestamp = iso_stream env, liked = None\<rparr>],
                              currentStreamMessage := Some (length (heap wa))\<rparr>"
  define w4 where "w4 = emit (ChatRequest (trim (textInput w)) (buildChatHistory w3)) w3"
  have sm: "sendMessage_part_000 env w =
              (case fetch_chat env of
                 FetchFails m \<Rightarrow> catch_part_000 env m w4
               | Response status chunks e \<Rightarrow>
                   if \<not> response_ok status
                   then catch_part_000 env (str ''HTTP error! status: '' @ decimal status) w4
                   else if null_body_status status
                   then catch_part_000 env (null_body_message env) w4
                   else (case read_loop env chunks e w4 of
                           Returned w5 \<Rightarrow> (Resolved, w5)
                         | Ended w5 \<Rightarrow> (Resolved, w5)
                         | Failed m w5 \<Rightarrow> catch_part_000 env m w5))"
    using ready added
    by (simp add: sendMessage_part_000_def Let_def w4_def w3_def
        split: fetch_outcome.splits loop_result.splits)
  have at: "streaming_kept w4 x \<Longrightarrow> at_failure env wa x" for x
    by (rule at_failure_sent [where p = "trim (textInput w)" and h = "buildChatHistory w3"])
      (simp_all add: w4_def w3_def)
  from transport_failure_cases [OF fails] show ?thesis
  proof (elim disjE exE conjE)
    assume "fetch_chat env = FetchFails msg"
    with sm at [OF streaming_kept_refl] show ?thesis by auto
  next
    fix status chunks e
    assume "fetch_chat env = Response status chunks e" "\<not> response_ok status"
      "msg = str ''HTTP error! status: '' @ decimal status"
    with sm at [OF streaming_kept_refl] show ?thesis by auto
  next
    fix status chunks
    assume f: "fetch_chat env = Response status chunks (ReadFails msg)" "response_ok status"
      "\<not> null_body_status status" and nd: "\<not> list_ex carries_done chunks"
    from not_done_loop [OF nd, of w4 env "ReadFails msg"] obtain x where
      "streaming_kept w4 x" "read_loop env chunks (ReadFails msg) w4 = Failed msg x"
      by auto
    with f sm at show ?thesis by auto
  qed
qed

lemma failure_stored_at:
  assumes at: "at_failure env wa x"
    and chat: "current_chat wa = Some ca"
    and res: "current_chat w' = Some (ca\<lparr>messages := messages ca @ [length (heap wa)]\<rparr>)"
      "heap w' = (heap x)[length (heap wa) :=
                    (heap x ! length (heap wa))\<lparr>content := str ''Connection error: '' @ msg\<rparr>]"
      "\<not> isStreaming w'" "\<not> isWaitingForResponse w'" "currentStreamMessage w' = None"
      "trace w' = trace x @ logged @
                    [SaveRequest (chats wa (chat_id ca) \<noteq> None)
                       (ca\<lparr>messages := messages ca @ [length (heap wa)]\<rparr>)
                       (map ((!) (heap w')) (messages ca @ [length (heap wa)]))]"
    and logged: "logged = [] \<or> logged = [failure_log]"
  shows "failure_stored env msg wa ca logged (Resolved, w')"
proof -
  define r where "r = length (heap wa)"
  define save where "save = SaveRequest (chats wa (chat_id ca) \<noteq> None)
                       (ca\<lparr>messages := messages ca @ [r]\<rparr>)
                       (map ((!) (heap w')) (messages ca @ [r]))"
  from at have len: "length (heap x) = Suc r"
    and cell: "forget (heap x ! r)
               = \<lparr>role = str ''assistant'', content = [], timestamp = iso_stream env, liked = None\<rparr>"
    and pre: "take (length (trace wa)) (trace x) = trace wa"
    and evs: "list_all in_flight (drop (length (trace wa)) (trace x))"
    by (simp_all add: at_failure_def r_def)
  have "heap w' ! r = (heap x ! r)\<lparr>content := str ''Connection error: '' @ msg\<rparr>"
    using res(2) len by (simp add: r_def)
  also have "\<dots> = \<lparr>role = str ''assistant'', content = str ''Connection error: '' @ msg,
                     timestamp = iso_stream env, liked = None\<rparr>"
    using arg_cong [OF cell [unfolded forget_def],
        of "\<lambda>m. m\<lparr>content := str ''Connection error: '' @ msg\<rparr>"]
    by simp
  finally have stored: "heap w' ! r = \<lparr>role = str ''assistant'', content = str ''Connection error: '' @ msg,
                     timestamp = iso_stream env, liked = None\<rparr>" .
  define before where "before = drop (length (trace wa)) (trace x)"
  from pre have "trace x = trace wa @ before"
    unfolding before_def by (metis append_take_drop_id)
  then have "trace w' = trace wa @ before @ logged @ [save]"
    using res(6) by (simp add: save_def r_def)
  then have new: "appended wa w' = drop (length (trace wa)) (trace x) @ logged @ [save]"
    by (simp add: appended_def before_def)
  have "\<not> in_flight save" "\<not> in_flight failure_log"
    by (simp_all add: save_def failure_log_def str_def)
  with logged have "after_failure (appended wa w') = logged @ [save]"
    unfolding new after_failure_def
    using after_in_flight [OF evs, of save "[]"] after_in_flight [OF evs, of failure_log "[save]"]
    by auto
  with res stored show ?thesis
    by (simp add: failure_stored_def Let_def r_def save_def)
qed

section \<open>The example inputs, evaluated\<close>

lemma streaming_eval:
  "streaming =
     \<lparr>currentChatId = Some (str ''chat_1700000000000''),
      chats = [str ''chat_1700000000000'' \<mapsto>
                 \<lparr>chat_id = str ''chat_1700000000000'', title = str ''hi'', messages = [0],
                  createdAt = str ''2023-11-14T22:13:20.000Z'', model = str ''gpt'', pinned = False\<rparr>],
      isWaitingForResponse = True, sidebarOpen = False, currentFile = None,
      currentStreamResponse = [], isStreaming = True, currentStreamMessage = Some 1,
      heap = [\<lparr>role = str ''user'', content = str ''hi'',
                timestamp = str ''2023-11-14T22:13:20.050Z'', liked = None\<rparr>,
              \<lparr>role = str ''assistant'', content = [],
                timestamp = str ''2023-11-14T22:13:20.100Z'', liked = None\<rparr>],
      textInput = [], saves = 2,
      trace = [SaveRequest False
                 \<lparr>chat_id = str ''chat_1700000000000'', title = str ''New Chat'', messages = [],
                  createdAt = str ''2023-11-14T22:13:20.000Z'', model = str ''gpt'', pinned = False\<rparr> [],
               SaveRequest True
                 \<lparr>chat_id = str ''chat_1700000000000'', title = str ''hi'', messages = [0],
                  createdAt = str ''2023-11-14T22:13:20.000Z'', model = str ''gpt'', pinned = False\<rparr>
                 [\<lparr>role = str ''user'', content = str ''hi'',
                   timestamp = str ''2023-11-14T22:13:20.050Z'', liked = None\<rparr>],
               ChatRequest (str ''hi'') []]\<rparr>"
  by (simp add: streaming_def app_defs platform_defs example_defs)

lemma prompt_added:
  "addMessageToChat (healthy f) (str ''user'') (trim (textInput (typed ''hi''))) (iso_user (healthy f))
     (typed ''hi'')
   = (Resolved, streaming\<lparr>isWaitingForResponse := False, isStreaming := False,
                 currentStreamMessage := None, heap := take 1 (heap streaming),
                 textInput := str ''hi'', trace := take 2 (trace streaming),
                 sidebarOpen := False\<rparr>)"
  by (simp add: streaming_eval app_defs platform_defs example_defs)

lemma no_content_eval:
  "sendMessage (healthy (Response 204 [] EndOfStream)) (typed ''hi'')
   = (Resolved,
      streaming\<lparr>isWaitingForResponse := False, isStreaming := False, currentStreamMessage := None,
                 heap := (heap streaming)[1 := (heap streaming ! 1)
                            \<lparr>content := str ''Connection error: response.body is null''\<rparr>],
                 chats := (chats streaming)(str ''chat_1700000000000'' \<mapsto>
                            \<lparr>chat_id = str ''chat_1700000000000'', title = str ''hi'',
                             messages = [0, 1], createdAt = str ''2023-11-14T22:13:20.000Z'',
                             model = str ''gpt'', pinned = False\<rparr>),
                 saves := 3,
                 trace := trace streaming @
                   [ConsoleError (str ''Send message failed:''),
                    SaveRequest True
                      \<lparr>chat_id = str ''chat_1700000000000'', title = str ''hi'', messages = [0, 1],
                       createdAt = str ''2023-11-14T22:13:20.000Z'', model = str ''gpt'', pinned = False\<rparr>
                      [\<lparr>role = str ''user'', content = str ''hi'',
                        timestamp = str ''2023-11-14T22:13:20.050Z'', liked = None\<rparr>,
                       \<lparr>role = str ''assistant'',
                        content = str ''Connection error: response.body is null'',
                        timestamp = str ''2023-11-14T22:13:20.100Z'', liked = None\<rparr>]]\<rparr>)"
  by (simp add: streaming_eval app_defs platform_defs example_defs)

lemma two_deltas_no_done: "\<not> list_ex carries_done two_deltas"
  by (simp add: two_deltas_def carries_done_def done_frame_def platform_defs)

lemma hello_first:
  \<open>process_lines env (split_nl (decode (bytes ''data: {"content":"Hel''))) w
     = Continue (emit (ConsoleError (str ''Error parsing stream data:'')) w)\<close>
  by (simp add: process_line_def platform_defs)

lemma hello_second: \<open>process_lines env (split_nl (decode (bytes ''lo"}\<newline>''))) w = Continue w\<close>
  by (simp add: process_line_def platform_defs)

lemma hello_third:
  \<open>split_nl (decode (bytes ''data: {"done":true}\<newline>'')) = [str ''data: {"done":true}'', []]\<close>
  by (simp add: platform_defs)

lemma done_frame_line:
  \<open>process_line env (str ''data: {"done":true}'') w = finish_stream env w\<close>
  by (simp add: process_line_def platform_defs)


section \<open>The branch of a done frame\<close>

lemma finish_stream_events:
  "stream_events (trace (flow_world (finish_stream env w))) = stream_events (trace w) @ [Completion]"
  unfolding finish_stream_def Let_def
  by (auto simp: emit_def stream_events_def put_current_chat_def saveChatToBackend_def Let_def
      split: option.splits)

lemma finish_stream_deltas:
  "deltas (trace (flow_world (finish_stream env w))) = deltas (trace w)"
  unfolding finish_stream_def Let_def
  by (auto simp: emit_def deltas_def put_current_chat_def saveChatToBackend_def Let_def
      split: option.splits)

lemma done_frame_returns:
  assumes "save_reply env (saves w) = None"
  shows "\<exists>w'. finish_stream env w = Return w' \<and> \<not> isStreaming w' \<and> \<not> isWaitingForResponse w'
              \<and> currentStreamMessage w' = None
              \<and> stream_events (trace w') = stream_events (trace w) @ [Completion]"
  using assms unfolding finish_stream_def Let_def
  by (auto simp: emit_def stream_events_def put_current_chat_def saveChatToBackend_def Let_def
      split: option.splits)

section \<open>Runs whose saves are accepted\<close>

text \<open>
  When the backend accepts every save, the stream events of the read loop and the way it
  ends are those of the chunks, whatever the session is: the done branch always returns.
\<close>

lemma flows_agree_same: "flows_agree w1 w2 (Continue w1) (Continue w2)"
  by (simp add: flows_agree_def)

lemma flows_agree_logged:
  "flows_agree w1 w2 (Continue (emit (ConsoleError l) w1)) (Continue (emit (ConsoleError l) w2))"
  by (simp add: flows_agree_def emit_def stream_events_def)

lemma flows_agree_after:
  assumes "flows_agree w1 w2 (Continue a) (Continue b)" "flows_agree a b f1 f2"
  shows "flows_agree w1 w2 f1 f2"
  using assms by (auto simp: flows_agree_def)

lemma finish_stream_agree:
  assumes "save_reply env1 (saves w1) = None" "save_reply env2 (saves w2) = None"
  shows "flows_agree w1 w2 (finish_stream env1 w1) (finish_stream env2 w2)"
  using done_frame_returns [OF assms(1)] done_frame_returns [OF assms(2)]
  by (auto simp: flows_agree_def)

lemma append_content_agree:
  assumes "Number_toString env1 = Number_toString env2"
  shows "flows_agree w1 w2 (append_content env1 v w1) (append_content env2 v w2)"
  using assms
  by (auto simp: flows_agree_def append_content_def Let_def emit_def stream_events_def
      updateStreamingMessage_def set_content_def split: option.splits)

lemma process_line_agree:
  assumes "\<forall>k. save_reply env1 k = None" "\<forall>k. save_reply env2 k = None"
    "Number_toString env1 = Number_toString env2"
  shows "flows_agree w1 w2 (process_line env1 line w1) (process_line env2 line w2)"
  unfolding process_line_def Let_def
  using assms
  by (auto simp: flows_agree_same flows_agree_logged finish_stream_agree append_content_agree
      split: option.splits property.splits)

lemma process_lines_agree:
  assumes "\<forall>k. save_reply env1 k = None" "\<forall>k. save_reply env2 k = None"
    "Number_toString env1 = Number_toString env2"
  shows "flows_agree w1 w2 (process_lines env1 lines w1) (process_lines env2 lines w2)"
proof (induction lines arbitrary: w1 w2)
  case Nil
  show ?case by (simp add: flows_agree_same)
next
  case (Cons line lines)
  from process_line_agree [OF assms, of w1 w2 line]
  have step: "flows_agree w1 w2 (process_line env1 line w1) (process_line env2 line w2)" .
  show ?case
  proof (cases "process_line env1 line w1")
    case (Return a)
    with step obtain b where "process_line env2 line w2 = Return b"
      by (cases "process_line env2 line w2") (auto simp: flows_agree_def)
    with Return step show ?thesis by simp
  next
    case (Continue a)
    with step obtain b where b: "process_line env2 line w2 = Continue b"
      by (cases "process_line env2 line w2") (auto simp: flows_agree_def)
    from flows_agree_after [OF _ Cons.IH [of a b]] Continue b step show ?thesis
      by simp
  qed
qed

lemma loops_alike_agree:
  assumes "flows_agree w1 w2 (Continue a) (Continue b)" "loops_alike a b r1 r2"
  shows "loops_alike w1 w2 r1 r2"
  using assms by (auto simp: flows_agree_def loops_alike_def)

lemma read_loop_agree:
  assumes "\<forall>k. save_reply env1 k = None" "\<forall>k. save_reply env2 k = None"
    "Number_toString env1 = Number_toString env2"
  shows "loops_alike w1 w2 (read_loop env1 cs e w1) (read_loop env2 cs e w2)"
proof (induction cs arbitrary: w1 w2)
  case Nil
  show ?case by (cases e) (simp_all add: loops_alike_def)
next
  case (Cons c cs)
  from process_lines_agree [OF assms, of w1 w2 "split_nl (decode c)"]
  have step: "flows_agree w1 w2 (process_lines env1 (split_nl (decode c)) w1)
                (process_lines env2 (split_nl (decode c)) w2)" .
  show ?case
  proof (cases "process_lines env1 (split_nl (decode c)) w1")
    case (Return a)
    with step obtain b where "process_lines env2 (split_nl (decode c)) w2 = Return b"
      by (cases "process_lines env2 (split_nl (decode c)) w2") (auto simp: flows_agree_def)
    with Return step show ?thesis by (simp add: flows_agree_def loops_alike_def)
  next
    case (Continue a)
    with step obtain b where b: "process_lines env2 (split_nl (decode c)) w2 = Continue b"
      by (cases "process_lines env2 (split_nl (decode c)) w2") (auto simp: flows_agree_def)
    from loops_alike_agree [OF _ Cons.IH [of a b]] Continue b step show ?thesis
      by simp
  qed
qed

lemma accepted_saves_determined:
  assumes "\<forall>k. save_reply env1 k = None" "\<forall>k. save_reply env2 k = None"
    "Number_toString env1 = Number_toString env2"
  shows "emitted w1 (world_of (read_loop env1 cs e w1)) = emitted w2 (world_of (read_loop env2 cs e w2))
         \<and> ending_of (read_loop env1 cs e w1) = ending_of (read_loop env2 cs e w2)"
  using read_loop_agree [OF assms, of w1 w2 cs e]
  by (auto simp: loops_alike_def emitted_def)

section \<open>Claims\<close>

subsection \<open>C8: the guard of sendMessage\<close>

text \<open>
  C8. While \<open>state.isStreaming\<close> or \<open>state.isWaitingForResponse\<close> is set, a call of
  \<open>sendMessage\<close> returns at once: the state, the message objects, the text input and the
  trace of effects (so also the requests issued) are what they were.
\<close>

theorem sendMessage_busy:
  "isStreaming w \<or> isWaitingForResponse w \<Longrightarrow> sendMessage env w = (Resolved, w)"
  by (auto simp: sendMessage_def)

text \<open>The guard at work in the session that is streaming, with a new prompt typed.\<close>

theorem sendMessage_busy_witness:
  "sendMessage (healthy (Response 200 hello_chunks EndOfStream)) (streaming\<lparr>textInput := str ''again''\<rparr>)
     = (Resolved, streaming\<lparr>textInput := str ''again''\<rparr>)"
  using sendMessage_busy [of "streaming\<lparr>textInput := str ''again''\<rparr>"
      "healthy (Response 200 hello_chunks EndOfStream)"]
  by (simp add: streaming_eval)

subsection \<open>C1: chunk boundaries\<close>

text \<open>
  C1, as the code has it. The loop keeps no buffer: it decodes and splits every chunk by
  itself. When every chunk ends with a line feed and no chunk after the first begins
  with a byte-order mark, the loop over the chunks ends as the loop over their
  concatenation delivered as one chunk does: the same state, the same trace (so the
  same content deltas), the same way of ending.
\<close>

theorem chunks_on_line_ends:
  assumes "\<forall>c \<in> set cs. c \<noteq> [] \<and> last c = 0x0A" and "\<forall>c \<in> set (tl cs). \<not> has_bom c"
  shows "read_loop env cs e w = read_loop env [concat cs] e w"
proof -
  have nl: "\<forall>c \<in> set cs. \<exists>xs. decode c = xs @ [10]"
    and complete: "\<forall>c \<in> set cs. \<not> ends_inside_character c"
    using assms(1) newline_chunk by blast+
  have "concat (map decode cs) = decode (concat cs)"
    using decode_concat [OF complete assms(2)] by simp
  then show ?thesis
    using read_loop_joined [OF nl, of env e w]
    by (cases e) (auto split: flow.splits)
qed

text \<open>Two chunks of whole lines: the loop over them is the loop over their concatenation.\<close>

theorem chunks_on_line_ends_witness:
  "read_loop (healthy (Response 200 hello_lines EndOfStream)) hello_lines EndOfStream streaming
     = read_loop (healthy (Response 200 hello_lines EndOfStream)) [concat hello_lines] EndOfStream streaming
   \<and> deltas (trace (world_of
         (read_loop (healthy (Response 200 hello_lines EndOfStream)) hello_lines EndOfStream streaming)))
     = [str ''Hello'']"
proof -
  have 1: "\<forall>c \<in> set hello_lines. c \<noteq> [] \<and> last c = 0x0A"
    by (simp add: hello_lines_def bytes_def)
  have 2: "\<forall>c \<in> set (tl hello_lines). \<not> has_bom c"
    by (simp add: hello_lines_def has_bom_def bytes_def)
  have "deltas (trace (world_of
         (read_loop (healthy (Response 200 hello_lines EndOfStream)) hello_lines EndOfStream streaming)))
     = [str ''Hello'']"
    by (simp add: streaming_eval hello_lines_def app_defs platform_defs example_defs)
  with chunks_on_line_ends [OF 1 2] show ?thesis by simp
qed

text \<open>
  C1 as it is stated fails: with the first frame of the example split inside its line,
  no content delta is emitted, and with the same bytes in one chunk the delta is
  \<open>Hello\<close>.
\<close>

theorem split_line_counterexample:
  "concat (deltas (trace (snd (sendMessage (healthy (Response 200 hello_split EndOfStream)) (typed ''hi'')))))
   \<noteq> concat (deltas (trace (snd (sendMessage (healthy (Response 200 [concat hello_split] EndOfStream))
                                  (typed ''hi'')))))"
  by (simp add: app_defs platform_defs example_defs hello_split_def)

subsection \<open>C3: decoding\<close>

text \<open>
  C3, as the code has it. Every chunk is decoded by a decoder of its own. The texts of
  the chunks, put together, are the text a decoder kept across the chunks would give
  when no chunk ends inside a multi-byte character and no chunk after the first begins
  with a byte-order mark.
\<close>

theorem decode_chunks:
  assumes "\<forall>c \<in> set cs. \<not> ends_inside_character c" and "\<forall>c \<in> set (tl cs). \<not> has_bom c"
  shows "concat (map decode cs) = decode_stream cs"
  using decode_concat [OF assms] by (simp add: decode_stream_def)

text \<open>A split after the character: the texts of the chunks are the text of the stream.\<close>

theorem decode_chunks_witness:
  "concat (map decode acute_whole) = decode_stream acute_whole
   \<and> decode_stream acute_whole = str ''data: {\"content\":\"'' @ [0xE9] @ str ''\"}\<newline>''"
proof -
  have 1: "\<forall>c \<in> set acute_whole. \<not> ends_inside_character c"
    by (simp add: acute_whole_def ends_inside_character_def utf8_handler_def utf8_lead_def
        utf8_init_def bytes_def Let_def)
  have 2: "\<forall>c \<in> set (tl acute_whole). \<not> has_bom c"
    by (simp add: acute_whole_def has_bom_def bytes_def)
  from decode_chunks [OF 1 2] show ?thesis
    by (simp add: acute_whole_def decode_stream_def platform_defs)
qed

text \<open>
  C3 as it is stated fails: split between the bytes C3 and A9, each chunk decodes its
  byte to U+FFFD, and the frame is lost with its content delta.
\<close>

theorem split_character_counterexample:
  "concat (map decode acute_split) \<noteq> decode_stream acute_split
   \<and> deltas (trace (snd (sendMessage (healthy (Response 200 acute_split EndOfStream)) (typed ''hi''))))
     \<noteq> deltas (trace (snd (sendMessage (healthy (Response 200 [concat acute_split] EndOfStream))
                              (typed ''hi''))))"
  by (simp add: app_defs platform_defs example_defs acute_split_def decode_stream_def)

subsection \<open>C5: a frame that does not parse\<close>



subsection \<open>C9: determinism\<close>

text \<open>
  C9, at the chunk of C6. The session is the one in which the prompt \<open>hi\<close> was sent, the
  chunk has a done frame, a content frame and a second done frame, and it is read twice.
  When the backend accepts the save of the done branch the events are one completion and
  the loop returns; when it refuses that save the same chunk gives a completion, the
  content delta \<open>late\<close> and a second completion, and the loop runs to the end of the
  stream. The events are not determined by the chunks: the refused save is caught as a
  parse error (app.js 1050) and the \<open>return\<close> of the done branch is not reached.
\<close>

theorem same_chunks_other_events:
  "emitted streaming
     (world_of (read_loop (healthy (Response 200 done_twice EndOfStream)) done_twice EndOfStream streaming))
     = [Completion]
   \<and> ending_of (read_loop (healthy (Response 200 done_twice EndOfStream)) done_twice EndOfStream streaming)
     = Completed
   \<and> emitted streaming
       (world_of (read_loop (accepting 2 (Response 200 done_twice EndOfStream)) done_twice EndOfStream
                    streaming))
     = [Completion, ContentDelta (str ''late''), Completion]
   \<and> ending_of (read_loop (accepting 2 (Response 200 done_twice EndOfStream)) done_twice EndOfStream
                   streaming)
     = StreamEnded"
  by (simp add: streaming_eval emitted_def accepting_def done_twice_def app_defs platform_defs example_defs)

subsection \<open>C7: transport failures\<close>

text \<open>
  C7, as the code has it. Let the prompt be added to the current chat (\<open>wa\<close>, with the chat
  \<open>ca\<close> under the chat id), let the request or a read fail with the message \<open>msg\<close> before
  any done frame, and let the backend accept the next save. Then both copies of
  \<open>sendMessage\<close> resolve with the busy flags cleared; the streaming message, with the content
  \<open>Connection error: msg\<close>, is the last message of the current chat; and from the failure on
  the effects are, in app.js, the one log \<open>Send message failed:\<close> and the save request of
  the chat with that message in it, and in the older copy that save request alone: no
  content delta, no completion and no other log follows the failure.
\<close>

theorem transport_failure_stored:
  assumes ready: "trim (textInput w) \<noteq> []" "\<not> isWaitingForResponse w" "\<not> isStreaming w"
    and added: "addMessageToChat env (str ''user'') (trim (textInput w)) (iso_user env) w = (Resolved, wa)"
    and chat: "has_chat_id wa" "current_chat wa = Some ca"
    and fails: "transport_failure (fetch_chat env) = Some msg"
    and saved: "save_reply env (saves wa) = None"
  shows "failure_stored env msg wa ca [failure_log] (sendMessage env w)
       \<and> failure_stored env msg wa ca [] (sendMessage_part_000 env w)"
proof
  from sendMessage_fails [OF ready added fails] obtain x where
    at: "at_failure env wa x" and sm: "sendMessage env w = (Resolved, handleSendMessageError env msg x)"
    by blast
  from at have x: "currentStreamMessage x = Some (length (heap wa))" "current_chat x = Some ca"
    "save_reply env (saves x) = None" "chats x = chats wa"
    using chat saved by (auto simp: at_failure_def current_chat_def split: option.splits)
  note h = handler_saved [OF x(1,2,3), of msg]
  show "failure_stored env msg wa ca [failure_log] (sendMessage env w)"
    unfolding sm
    using h by (intro failure_stored_at [OF at chat(2)]) (simp_all add: x(4))
next
  from sendMessage_part_000_fails [OF ready added fails] obtain x where
    at: "at_failure env wa x" and sm: "sendMessage_part_000 env w = catch_part_000 env msg x"
    by blast
  from at have x: "currentStreamMessage x = Some (length (heap wa))" "current_chat x = Some ca"
    "has_chat_id x" "save_reply env (saves x) = None" "chats x = chats wa"
    using chat saved by (auto simp: at_failure_def current_chat_def has_chat_id_def split: option.splits)
  note h = catch_saved [OF x(1,2,3,4), of msg]
  have "sendMessage_part_000 env w = (Resolved, snd (catch_part_000 env msg x))"
    unfolding sm using h(1) by (metis prod.collapse)
  then show "failure_stored env msg wa ca [] (sendMessage_part_000 env w)"
    using h by (simp only:) (intro failure_stored_at [OF at chat(2)], simp_all add: x(5))
qed

text \<open>The example of the specification: a read fails after two content deltas.\<close>

theorem transport_failure_stored_witness:
  "current_chat (snd (sendMessage read_failure (typed ''hi'')))
     = Some \<lparr>chat_id = str ''chat_1700000000000'', title = str ''hi'', messages = [0, 1],
             createdAt = str ''2023-11-14T22:13:20.000Z'', model = str ''gpt'', pinned = False\<rparr>
   \<and> heap (snd (sendMessage read_failure (typed ''hi''))) ! 1
     = \<lparr>role = str ''assistant'', content = str ''Connection error: network error'',
        timestamp = str ''2023-11-14T22:13:20.100Z'', liked = None\<rparr>
   \<and> current_chat (snd (sendMessage_part_000 read_failure (typed ''hi'')))
     = Some \<lparr>chat_id = str ''chat_1700000000000'', title = str ''hi'', messages = [0, 1],
             createdAt = str ''2023-11-14T22:13:20.000Z'', model = str ''gpt'', pinned = False\<rparr>
   \<and> heap (snd (sendMessage_part_000 read_failure (typed ''hi''))) ! 1
     = \<lparr>role = str ''assistant'', content = str ''Connection error: network error'',
        timestamp = str ''2023-11-14T22:13:20.100Z'', liked = None\<rparr>
   \<and> stream_events (trace (snd (sendMessage read_failure (typed ''hi''))))
     = [ContentDelta (str ''a''), ContentDelta (str ''b'')]
   \<and> stream_events (trace (snd (sendMessage_part_000 read_failure (typed ''hi''))))
     = [ContentDelta (str ''a''), ContentDelta (str ''b'')]"
proof -
  define wa where "wa = streaming\<lparr>isWaitingForResponse := False, isStreaming := False,
                 currentStreamMessage := None, heap := take 1 (heap streaming),
                 textInput := str ''hi'', trace := take 2 (trace streaming),
                 sidebarOpen := False\<rparr>"
  define ca where "ca = \<lparr>chat_id = str ''chat_1700000000000'', title = str ''hi'', messages = [0],
             createdAt = str ''2023-11-14T22:13:20.000Z'', model = str ''gpt'', pinned = False\<rparr>"
  have ready: "trim (textInput (typed ''hi'')) \<noteq> []" "\<not> isWaitingForResponse (typed ''hi'')"
    "\<not> isStreaming (typed ''hi'')"
    by (simp_all add: example_defs platform_defs)
  have added: "addMessageToChat read_failure (str ''user'') (trim (textInput (typed ''hi'')))
                 (iso_user read_failure) (typed ''hi'') = (Resolved, wa)"
    unfolding read_failure_def wa_def by (rule prompt_added)
  have chat: "has_chat_id wa" "current_chat wa = Some ca"
    by (simp_all add: wa_def ca_def streaming_eval current_chat_def has_chat_id_def str_def)
  have fails: "transport_failure (fetch_chat read_failure) = Some (str ''network error'')"
    using two_deltas_no_done
    by (simp add: read_failure_def healthy_def page_def transport_failure_def response_ok_def
        null_body_status_def)
  have saved: "save_reply read_failure (saves wa) = None"
    by (simp add: read_failure_def healthy_def page_def)
  have len: "length (heap wa) = 1"
    by (simp add: wa_def streaming_eval)
  have stamp: "iso_stream read_failure = str ''2023-11-14T22:13:20.100Z''"
    by (simp add: read_failure_def healthy_def page_def)
  have events: "stream_events (trace (snd (sendMessage read_failure (typed ''hi''))))
     = [ContentDelta (str ''a''), ContentDelta (str ''b'')]"
    by (simp add: read_failure_def two_deltas_def app_defs platform_defs example_defs)
  have events_part_000: "stream_events (trace (snd (sendMessage_part_000 read_failure (typed ''hi''))))
     = [ContentDelta (str ''a''), ContentDelta (str ''b'')]"
    by (simp add: read_failure_def two_deltas_def app_defs platform_defs example_defs)
  from transport_failure_stored [OF ready added chat fails saved] events events_part_000
  show ?thesis
    by (simp add: failure_stored_def split_beta Let_def len stamp ca_def str_def)
qed

text \<open>
  C7 as it is stated fails without a current chat and with a refused save. On the page as
  it has loaded, with a backend that refuses every save, no chat is created; the request
  fails, the failure is logged, and the error message is in no chat and in no save
  request. With a backend that refuses the third save the chat has the message, the save
  request is refused and a second error is logged after the failure.
\<close>

theorem transport_failure_counterexample:
  "transport_failure (fetch_chat no_backend) = Some (str ''Failed to fetch'')
   \<and> fst (sendMessage no_backend (typed ''hi'')) = Resolved
   \<and> current_chat (snd (sendMessage no_backend (typed ''hi''))) = None
   \<and> dom (chats (snd (sendMessage no_backend (typed ''hi'')))) = {}
   \<and> trace (snd (sendMessage no_backend (typed ''hi'')))
     = [SaveRequest False
          \<lparr>chat_id = str ''chat_1700000000000'', title = str ''New Chat'', messages = [],
           createdAt = str ''2023-11-14T22:13:20.000Z'', model = str ''gpt'', pinned = False\<rparr> [],
        ConsoleError (str ''Error saving chat to backend:''),
        ConsoleError (str ''Error creating chat:''),
        Alert (str ''Error creating new chat: HTTP error! status: 500, message: ''),
        ChatRequest (str ''hi'') [],
        ConsoleError (str ''Send message failed:'')]
   \<and> transport_failure (fetch_chat save_refused) = Some (str ''Failed to fetch'')
   \<and> drop 3 (trace (snd (sendMessage save_refused (typed ''hi''))))
     = [ConsoleError (str ''Send message failed:''),
        SaveRequest True
          \<lparr>chat_id = str ''chat_1700000000000'', title = str ''hi'', messages = [0, 1],
           createdAt = str ''2023-11-14T22:13:20.000Z'', model = str ''gpt'', pinned = False\<rparr>
          [\<lparr>role = str ''user'', content = str ''hi'',
            timestamp = str ''2023-11-14T22:13:20.050Z'', liked = None\<rparr>,
           \<lparr>role = str ''assistant'', content = str ''Connection error: Failed to fetch'',
            timestamp = str ''2023-11-14T22:13:20.100Z'', liked = None\<rparr>],
        ConsoleError (str ''Error saving chat to backend:'')]"
  by (simp add: no_backend_def save_refused_def accepting_def transport_failure_def
      app_defs platform_defs example_defs)

subsection \<open>C10: a stream that ends without a done frame\<close>

text \<open>
  C10. When the prompt is added and the body of the response (its status is ok and not a
  null body status, so there is a reader) ends after chunks without a done frame,
  \<open>sendMessage\<close> returns with \<open>state.isStreaming\<close> and \<open>state.isWaitingForResponse\<close> both
  set, and from that state every call of \<open>sendMessage\<close>, whatever is typed and whatever
  the browser and the backend would answer, returns at once and changes nothing; in both
  copies of \<open>sendMessage\<close>.
\<close>

theorem stream_ends_without_done:
  assumes ready: "trim (textInput w) \<noteq> []" "\<not> isWaitingForResponse w" "\<not> isStreaming w"
    and added: "fst (addMessageToChat env (str ''user'') (trim (textInput w)) (iso_user env) w) = Resolved"
    and stream: "fetch_chat env = Response status chunks EndOfStream" "response_ok status"
      "\<not> null_body_status status" "\<not> list_ex carries_done chunks"
  shows "(let w' = snd (sendMessage env w) in
            fst (sendMessage env w) = Resolved
          \<and> isStreaming w' \<and> isWaitingForResponse w'
          \<and> (\<forall>env' typed_input. sendMessage env' (w'\<lparr>textInput := typed_input\<rparr>)
                                  = (Resolved, w'\<lparr>textInput := typed_input\<rparr>)))
       \<and> (let w' = snd (sendMessage_part_000 env w) in
            fst (sendMessage_part_000 env w) = Resolved
          \<and> isStreaming w' \<and> isWaitingForResponse w'
          \<and> (\<forall>env' typed_input. sendMessage_part_000 env' (w'\<lparr>textInput := typed_input\<rparr>)
                                  = (Resolved, w'\<lparr>textInput := typed_input\<rparr>)))"
proof -
  from added obtain wa where
    wa: "addMessageToChat env (str ''user'') (trim (textInput w)) (iso_user env) w = (Resolved, wa)"
    by (cases "addMessageToChat env (str ''user'') (trim (textInput w)) (iso_user env) w") auto
  define w3 where "w3 = (wa\<lparr>textInput := [], currentFile := None, isWaitingForResponse := True,
                            isStreaming := True, currentStreamResponse := []\<rparr>)
                         \<lparr>heap := heap wa @ [\<lparr>role = str ''assistant'', content = [],
                                                   timestamp = iso_stream env, liked = None\<rparr>],
                              currentStreamMessage := Some (length (heap wa))\<rparr>"
  have busy: "isStreaming x \<and> isWaitingForResponse x"
    if "streaming_kept (emit (ChatRequest (trim (textInput w)) h) w3) x" for h x
    using streaming_kept_fields(3,4) [OF that] by (simp add: w3_def emit_def)
  have 1: "let w' = snd (sendMessage env w) in
            fst (sendMessage env w) = Resolved
          \<and> isStreaming w' \<and> isWaitingForResponse w'
          \<and> (\<forall>env' typed_input. sendMessage env' (w'\<lparr>textInput := typed_input\<rparr>)
                                  = (Resolved, w'\<lparr>textInput := typed_input\<rparr>))"
  proof -
    define h where "h = buildChatHistory (wa\<lparr>textInput := [], currentFile := None,
                          isWaitingForResponse := True, isStreaming := True, currentStreamResponse := []\<rparr>)"
    from not_done_loop [OF stream(4), of "emit (ChatRequest (trim (textInput w)) h) w3" env EndOfStream]
    obtain x where kept: "streaming_kept (emit (ChatRequest (trim (textInput w)) h) w3) x"
      and loop: "read_loop env chunks EndOfStream (emit (ChatRequest (trim (textInput w)) h) w3) = Ended x"
      by auto
    have sm: "sendMessage env w = (Resolved, x)"
      using ready wa stream(1,2,3) loop
      by (simp add: sendMessage_def Let_def w3_def h_def)
    from busy [OF kept] have "sendMessage env' (x\<lparr>textInput := typed_input\<rparr>)
                              = (Resolved, x\<lparr>textInput := typed_input\<rparr>)" for env' typed_input
      by (simp add: sendMessage_def)
    with sm busy [OF kept] show ?thesis by simp
  qed
  have 2: "let w' = snd (sendMessage_part_000 env w) in
            fst (sendMessage_part_000 env w) = Resolved
          \<and> isStreaming w' \<and> isWaitingForResponse w'
          \<and> (\<forall>env' typed_input. sendMessage_part_000 env' (w'\<lparr>textInput := typed_input\<rparr>)
                                  = (Resolved, w'\<lparr>textInput := typed_input\<rparr>))"
  proof -
    define h where "h = buildChatHistory w3"
    from not_done_loop [OF stream(4), of "emit (ChatRequest (trim (textInput w)) h) w3" env EndOfStream]
    obtain x where kept: "streaming_kept (emit (ChatRequest (trim (textInput w)) h) w3) x"
      and loop: "read_loop env chunks EndOfStream (emit (ChatRequest (trim (textInput w)) h) w3) = Ended x"
      by auto
    have sm: "sendMessage_part_000 env w = (Resolved, x)"
      using ready wa stream(1,2,3) loop
      by (simp add: sendMessage_part_000_def Let_def w3_def h_def)
    from busy [OF kept] have "sendMessage_part_000 env' (x\<lparr>textInput := typed_input\<rparr>)
                              = (Resolved, x\<lparr>textInput := typed_input\<rparr>)" for env' typed_input
      by (simp add: sendMessage_part_000_def)
    with sm busy [OF kept] show ?thesis by simp
  qed
  from 1 2 show ?thesis ..
qed

text \<open>The body ends after two content frames; the next prompt is not sent.\<close>

theorem stream_ends_without_done_witness:
  "fst (sendMessage open_ended (typed ''hi'')) = Resolved
   \<and> isStreaming (snd (sendMessage open_ended (typed ''hi'')))
   \<and> isWaitingForResponse (snd (sendMessage open_ended (typed ''hi'')))
   \<and> sendMessage open_ended ((snd (sendMessage open_ended (typed ''hi'')))\<lparr>textInput := str ''again''\<rparr>)
     = (Resolved, (snd (sendMessage open_ended (typed ''hi'')))\<lparr>textInput := str ''again''\<rparr>)
   \<and> fst (sendMessage_part_000 open_ended (typed ''hi'')) = Resolved
   \<and> isStreaming (snd (sendMessage_part_000 open_ended (typed ''hi'')))
   \<and> isWaitingForResponse (snd (sendMessage_part_000 open_ended (typed ''hi'')))
   \<and> sendMessage_part_000 open_ended
       ((snd (sendMessage_part_000 open_ended (typed ''hi'')))\<lparr>textInput := str ''again''\<rparr>)
     = (Resolved, (snd (sendMessage_part_000 open_ended (typed ''hi'')))\<lparr>textInput := str ''again''\<rparr>)"
proof -
  have ready: "trim (textInput (typed ''hi'')) \<noteq> []" "\<not> isWaitingForResponse (typed ''hi'')"
    "\<not> isStreaming (typed ''hi'')"
    by (simp_all add: example_defs platform_defs)
  have added: "fst (addMessageToChat open_ended (str ''user'') (trim (textInput (typed ''hi'')))
                 (iso_user open_ended) (typed ''hi'')) = Resolved"
    unfolding open_ended_def by (simp add: prompt_added)
  have stream: "fetch_chat open_ended = Response 200 two_deltas EndOfStream" "response_ok 200"
    "\<not> null_body_status 200"
    by (simp_all add: open_ended_def healthy_def page_def response_ok_def null_body_status_def)
  from stream_ends_without_done [OF ready added stream two_deltas_no_done] show ?thesis
    by (simp add: Let_def)
qed

subsection \<open>C2: the three chunks of the example\<close>

text \<open>
  C2, as the code has it. For the three chunks of the example the first chunk's piece of
  a frame does not parse and is logged, the second chunk has no frame, the third is the
  done frame: the loop emits no content delta and exactly one completion, whatever the
  session and the backend.
\<close>

theorem hello_chunks_events:
  "stream_events (trace (world_of (read_loop env hello_chunks e w))) = stream_events (trace w) @ [Completion]
   \<and> deltas (trace (world_of (read_loop env hello_chunks e w))) = deltas (trace w)
   \<and> trace (flow_world (process_lines env (split_nl (decode (hd hello_chunks))) w))
       = trace w @ [ConsoleError (str ''Error parsing stream data:'')]"
proof -
  define w1 where "w1 = emit (ConsoleError (str ''Error parsing stream data:'')) w"
  have ev: "stream_events (trace w1) = stream_events (trace w)" "deltas (trace w1) = deltas (trace w)"
    by (simp_all add: w1_def emit_def stream_events_def deltas_def)
  have loop: "read_loop env hello_chunks e w =
          (case finish_stream env w1 of
             Return w' \<Rightarrow> Returned w'
           | Continue w' \<Rightarrow> read_loop env [] e w')"
    by (simp add: hello_chunks_def hello_first hello_second hello_third done_frame_line
        process_line_blank w1_def split: flow.splits)
  have "world_of (read_loop env hello_chunks e w) = flow_world (finish_stream env w1)"
    unfolding loop by (cases "finish_stream env w1"; cases e) simp_all
  then show ?thesis
    using finish_stream_events [of env w1] finish_stream_deltas [of env w1] ev
    by (simp add: hello_chunks_def hello_first emit_def w1_def)
qed

text \<open>C2 as it is stated fails: the events are not the delta \<open>Hello\<close> and a completion.\<close>

theorem hello_chunks_counterexample:
  "stream_events (trace (snd (sendMessage (healthy (Response 200 hello_chunks EndOfStream)) (typed ''hi''))))
   \<noteq> [ContentDelta (str ''Hello''), Completion]"
  by (simp add: app_defs platform_defs example_defs)

subsection \<open>C4: sentinel frames\<close>


subsection \<open>C6: the done frame\<close>

text \<open>
  C6 fails on the code when the save of the finished message fails. The save is awaited
  inside the \<open>try\<close> whose \<open>catch\<close> is meant for parse errors: the rejection is logged as
  one and the loop goes on. Here the backend stops accepting saves after the prompt was
  stored: the first done frame does not end the processing, the content frame after it
  is delivered, the second done frame is a second completion, and the streaming message
  is in the chat twice.
\<close>

theorem done_frame_save_fails:
  "stream_events (trace (snd (sendMessage (page (\<lambda>k. k < 2) (Response 200 done_twice EndOfStream))
                               (typed ''hi''))))
     = [Completion, ContentDelta (str ''late''), Completion]
   \<and> map_option messages
         (current_chat (snd (sendMessage (page (\<lambda>k. k < 2) (Response 200 done_twice EndOfStream))
                               (typed ''hi''))))
     = Some [0, 1, 1]"
  by (simp add: app_defs platform_defs example_defs done_twice_def)

end
